theory Spec2Isabelle
  imports Complex_Main "HOL-Library.AList"
begin

section \<open>JavaScript containers and values\<close>

text \<open>
  The subscription manager of \<^verbatim>\<open>src/implementations/PerformanceMonitor.ts\<close>
  (class \<^verbatim>\<open>SubscriptionManager\<close>) keeps three \<^verbatim>\<open>Map\<close>s and, inside them,
  \<^verbatim>\<open>Set<string>\<close>s. Both containers iterate in insertion order, so a \<^verbatim>\<open>Map\<close> is an
  association list (\<open>AList.update\<close> is \<^verbatim>\<open>set\<close>: it overwrites in place or appends;
  \<open>map_of\<close> is \<^verbatim>\<open>get\<close>; \<open>AList.delete\<close> is \<^verbatim>\<open>delete\<close>) and a \<^verbatim>\<open>Set\<close> is a
  list without duplicates, in insertion order.

  Every method is first modelled as running alone, from its first statement to its return.
  \<^verbatim>\<open>closeConnection\<close>, which awaits between its check of the map and its removal of the
  record, is also given in the pieces that run without suspension, so that calls running in
  between can be composed with it; what other calls could do at the one \<^verbatim>\<open>await\<close> of
  \<^verbatim>\<open>publish\<close> and \<^verbatim>\<open>publishToSubscribers\<close>, after their loops, is not modelled. A
  connection record is stored by value; the calls on the logger are taken not to throw. The
  clock, the random generator and the heap size are inputs of the methods that read them.
\<close>

definition set_add :: "'a \<Rightarrow> 'a list \<Rightarrow> 'a list" where
  "set_add x xs = (if x \<in> set xs then xs else xs @ [x])"

definition set_delete :: "'a \<Rightarrow> 'a list \<Rightarrow> 'a list" where
  "set_delete x xs = removeAll x xs"

definition map_has :: "('k \<times> 'v) list \<Rightarrow> 'k \<Rightarrow> bool" where
  "map_has m k = (map_of m k \<noteq> None)"

text \<open>
  An exception raised by the manager's own code: an \<^verbatim>\<open>Error\<close> with its message, or the
  \<^verbatim>\<open>TypeError\<close> that reading a property of \<^verbatim>\<open>null\<close> or \<^verbatim>\<open>undefined\<close> raises.
\<close>

datatype error = JsError string | JsTypeError

text \<open>
  What caller-supplied code throws: \<^verbatim>\<open>null\<close> or \<^verbatim>\<open>undefined\<close>, or any other value (an
  \<^verbatim>\<open>Error\<close>, say), whose \<^verbatim>\<open>message\<close> property can be read.
\<close>

datatype thrown = ThrownNullish | ThrownValue string

text \<open>The calls on \<^verbatim>\<open>this.logger\<close>, by level and message (the metadata objects are left out).\<close>

datatype level = Debug | Info | Warn | Err

type_synonym log_entry = "level \<times> string"

section \<open>Data model (\<^verbatim>\<open>interfaces/ISubscriptionManager.ts\<close>)\<close>

text \<open>
  \<^verbatim>\<open>ISubscriptionConnection\<close>. The fields \<^verbatim>\<open>id\<close>, \<^verbatim>\<open>subscriptions\<close> and \<^verbatim>\<open>metadata\<close> carry
  the prefix \<open>conn_\<close> (\<open>id\<close> is a HOL constant, \<open>subscriptions\<close> is a field of the
  manager). Dates are milliseconds since the epoch.
\<close>

record connection =
  conn_id :: string
  userId :: "string option"
  startTime :: int
  lastActivity :: int
  conn_subscriptions :: "string list"
  conn_metadata :: "(string \<times> string) list"
  isActive :: bool

text \<open>
  \<^verbatim>\<open>ISubscriptionStats\<close>: JavaScript numbers; the counters are integers (exact as doubles
  below \<open>2^53\<close>), the rates rationals.
\<close>

record subscription_stats =
  activeConnections :: int
  totalSubscriptions :: int
  messagesSent :: int
  messagesReceived :: int
  averageConnectionDuration :: rat
  peakConnections :: int
  errorRate :: rat
  uptime :: int

text \<open>
  \<^verbatim>\<open>ISubscriptionFilter\<close>: called with the payload, the variables and a context; it returns
  a boolean or throws, and is taken not to change its arguments. \<^verbatim>\<open>publishToSubscribers\<close>
  passes \<^verbatim>\<open>{}\<close> as variables and \<^verbatim>\<open>{ connection }\<close> as context.
\<close>

type_synonym 'p subscription_filter =
  "'p \<Rightarrow> (string \<times> string) list \<Rightarrow> connection \<Rightarrow> thrown + bool"

text \<open>
  \<^verbatim>\<open>ISubscriptionResolver\<close>: the optional \<^verbatim>\<open>resolve\<close> and \<^verbatim>\<open>filter\<close> members (the
  \<^verbatim>\<open>subscribe\<close> iterator is never called by the manager and is left out).
\<close>

record 'p resolver =
  resolve :: "('p \<Rightarrow> 'p) option"
  res_filter :: "'p subscription_filter option"

text \<open>
  The private fields of \<^verbatim>\<open>SubscriptionManager\<close>. \<open>subscriptionConnections\<close> is commented
  \<^verbatim>\<open>// topic -> connectionIds\<close> in the source. \<open>logger\<close> collects what was written to
  \<^verbatim>\<open>this.logger\<close>.
\<close>

record 'p manager =
  subscriptions :: "(string \<times> 'p resolver) list"
  connections :: "(string \<times> connection) list"
  subscriptionConnections :: "(string \<times> string list) list"
  stats :: subscription_stats
  logger :: "log_entry list"

text \<open>The field initialisers of the class; \<open>now\<close> is \<^verbatim>\<open>Date.now()\<close> at construction.\<close>

definition init :: "int \<Rightarrow> 'p manager" where
  "init now =
     \<lparr> subscriptions = [], connections = [], subscriptionConnections = [],
       stats = \<lparr> activeConnections = 0, totalSubscriptions = 0, messagesSent = 0,
                 messagesReceived = 0, averageConnectionDuration = 0, peakConnections = 0,
                 errorRate = 0, uptime = now \<rparr>,
       logger = [] \<rparr>"

definition log_to :: "level \<Rightarrow> string \<Rightarrow> 'p manager \<Rightarrow> 'p manager" where
  "log_to l msg s = s\<lparr>logger := logger s @ [(l, msg)]\<rparr>"

section \<open>Identifiers\<close>

text \<open>\<^verbatim>\<open>Number.prototype.toString(36)\<close> on a non-negative integer.\<close>

definition digit36 :: "nat \<Rightarrow> char" where
  "digit36 d = ''0123456789abcdefghijklmnopqrstuvwxyz'' ! d"

function toString36 :: "nat \<Rightarrow> string" where
  "toString36 n = (if n < 36 then [digit36 n] else toString36 (n div 36) @ [digit36 (n mod 36)])"
  by pat_completeness auto
termination
  by (relation "measure (\<lambda>n. n)") auto

declare toString36.simps [simp del]

text \<open>
  \<^verbatim>\<open>Math.random().toString(36).substring(2) + Date.now().toString(36)\<close>. The two inputs
  of the generator are \<open>rnd\<close>, the string \<^verbatim>\<open>Math.random().toString(36)\<close> (it starts with
  \<^verbatim>\<open>0.\<close>), and \<open>now\<close>, the value of \<^verbatim>\<open>Date.now()\<close>.
\<close>

definition generateId :: "string \<Rightarrow> nat \<Rightarrow> string" where
  "generateId rnd now = drop 2 rnd @ toString36 now"

section \<open>Operations of \<^verbatim>\<open>SubscriptionManager\<close>\<close>

definition subscribe :: "string \<Rightarrow> nat \<Rightarrow> string \<Rightarrow> 'p resolver \<Rightarrow> 'p manager \<Rightarrow> string \<times> 'p manager" where
  "subscribe rnd now name resolver s =
     (let subscriptionId = generateId rnd now;
          s1 = log_to Debug ''Creating subscription'' s;
          s2 = s1\<lparr>subscriptions := AList.update subscriptionId resolver (subscriptions s1)\<rparr>;
          s3 = (if \<not> map_has (subscriptionConnections s2) name
                then s2\<lparr>subscriptionConnections := AList.update name [] (subscriptionConnections s2)\<rparr>
                else s2);
          s4 = s3\<lparr>stats := (stats s3)\<lparr>totalSubscriptions := totalSubscriptions (stats s3) + 1\<rparr>\<rparr>;
          s5 = log_to Info ''Subscription created successfully'' s4
      in (subscriptionId, s5))"

definition unsubscribe :: "string \<Rightarrow> 'p manager \<Rightarrow> bool \<times> 'p manager" where
  "unsubscribe subscriptionId s =
     (let s1 = log_to Debug ''Unsubscribing'' s;
          removed = map_has (subscriptions s1) subscriptionId;
          s2 = s1\<lparr>subscriptions := AList.delete subscriptionId (subscriptions s1)\<rparr>
      in if removed then
           (let s3 = s2\<lparr>subscriptionConnections :=
                         AList.map_ran (\<lambda>topic connectionSet. set_delete subscriptionId connectionSet)
                           (subscriptionConnections s2)\<rparr>;
                s4 = s3\<lparr>stats := (stats s3)\<lparr>totalSubscriptions := totalSubscriptions (stats s3) - 1\<rparr>\<rparr>;
                s5 = log_to Info ''Subscription removed successfully'' s4
            in (removed, s5))
         else (removed, s2))"

text \<open>
  \<^verbatim>\<open>publishToConnection\<close> throws when the connection is unknown or inactive; otherwise it
  sets \<^verbatim>\<open>connection.lastActivity = new Date()\<close> (\<open>now\<close>) and logs.
\<close>

definition publishToConnection :: "int \<Rightarrow> string \<Rightarrow> string \<Rightarrow> 'p \<Rightarrow> 'p manager \<Rightarrow> error + 'p manager" where
  "publishToConnection now connectionId topic payload s =
     (case map_of (connections s) connectionId of
        None \<Rightarrow> Inl (JsError (''Connection '' @ connectionId @ '' is not active''))
      | Some connection \<Rightarrow>
          if \<not> isActive connection
          then Inl (JsError (''Connection '' @ connectionId @ '' is not active''))
          else Inr (log_to Debug ''Published to connection''
                     (s\<lparr>connections :=
                          AList.update connectionId (connection\<lparr>lastActivity := now\<rparr>) (connections s)\<rparr>)))"

text \<open>
  The loop of \<^verbatim>\<open>publish\<close> over the topic's set. \<^verbatim>\<open>publishToConnection\<close> has no
  \<^verbatim>\<open>await\<close>, so each call runs to its end inside the loop; the result is the list of the
  promises' outcomes (\<open>True\<close>: fulfilled). \<open>clock i\<close> is what \<^verbatim>\<open>new Date()\<close> returns
  while the \<open>i\<close>-th element of the set is processed.
\<close>

fun deliver :: "(nat \<Rightarrow> int) \<Rightarrow> nat \<Rightarrow> string \<Rightarrow> 'p \<Rightarrow> string list \<Rightarrow> 'p manager \<Rightarrow> bool list \<times> 'p manager" where
  "deliver clock i topic payload [] s = ([], s)"
| "deliver clock i topic payload (connectionId # rest) s =
     (case publishToConnection (clock i) connectionId topic payload s of
        Inl e \<Rightarrow>
          (case deliver clock (Suc i) topic payload rest s of (rs, s') \<Rightarrow> (False # rs, s'))
      | Inr s1 \<Rightarrow>
          (case deliver clock (Suc i) topic payload rest s1 of (rs, s') \<Rightarrow> (True # rs, s')))"

text \<open>
  After the loop the \<^verbatim>\<open>.then\<close> handlers count the fulfilled promises and the \<^verbatim>\<open>.catch\<close>
  handlers log one warning for each rejected one.
\<close>

definition settle :: "string \<Rightarrow> bool list \<Rightarrow> 'p manager \<Rightarrow> nat \<times> 'p manager" where
  "settle msg outcomes s =
     (length (filter (\<lambda>ok. ok) outcomes),
      s\<lparr>logger := logger s @ map (\<lambda>_. (Warn, msg)) (filter (\<lambda>ok. \<not> ok) outcomes)\<rparr>)"

definition publish :: "(nat \<Rightarrow> int) \<Rightarrow> string \<Rightarrow> 'p \<Rightarrow> 'p manager \<Rightarrow> error + (nat \<times> 'p manager)" where
  "publish clock topic payload s =
     (let s0 = log_to Debug ''Publishing to topic'' s in
      case map_of (subscriptionConnections s0) topic of
        None \<Rightarrow> Inr (0, log_to Debug ''No subscribers for topic'' s0)
      | Some connectionIds \<Rightarrow>
          if length connectionIds = 0 then Inr (0, log_to Debug ''No subscribers for topic'' s0)
          else
            (case deliver clock 0 topic payload connectionIds s0 of (outcomes, s1) \<Rightarrow>
             case settle ''Failed to publish to connection'' outcomes s1 of (successCount, s2) \<Rightarrow>
               (let s3 = s2\<lparr>stats := (stats s2)\<lparr>messagesSent := messagesSent (stats s2) + int successCount\<rparr>\<rparr>
                in Inr (successCount, log_to Info ''Published to subscribers'' s3))))"

text \<open>
  The loop of \<^verbatim>\<open>publishToSubscribers\<close>: an unregistered id is skipped, the filter is
  called inside its own \<^verbatim>\<open>try\<close>, and only then is the delivery pushed. The \<^verbatim>\<open>catch\<close> of
  that \<^verbatim>\<open>try\<close> builds the warning from \<^verbatim>\<open>(filterError as Error).message\<close>: for a thrown
  value that has the property the warning is logged and the id skipped; for \<^verbatim>\<open>null\<close> or
  \<^verbatim>\<open>undefined\<close> reading the property raises a \<^verbatim>\<open>TypeError\<close> before anything is logged, and
  the loop is left. The result is that exception, if any, the outcomes of the promises pushed
  so far, and the state.
\<close>

fun deliverFiltered :: "(nat \<Rightarrow> int) \<Rightarrow> nat \<Rightarrow> string \<Rightarrow> 'p \<Rightarrow> 'p subscription_filter \<Rightarrow> string list \<Rightarrow> 'p manager \<Rightarrow> error option \<times> bool list \<times> 'p manager" where
  "deliverFiltered clock i topic payload flt [] s = (None, [], s)"
| "deliverFiltered clock i topic payload flt (connectionId # rest) s =
     (case map_of (connections s) connectionId of
        None \<Rightarrow> deliverFiltered clock (Suc i) topic payload flt rest s
      | Some connection \<Rightarrow>
          (case flt payload [] connection of
             Inl ThrownNullish \<Rightarrow> (Some JsTypeError, [], s)
           | Inl (ThrownValue message) \<Rightarrow>
               deliverFiltered clock (Suc i) topic payload flt rest
                 (log_to Warn ''Subscription filter error'' s)
           | Inr shouldPublish \<Rightarrow>
               if \<not> shouldPublish then deliverFiltered clock (Suc i) topic payload flt rest s
               else
                 (case publishToConnection (clock i) connectionId topic payload s of
                    Inl e \<Rightarrow>
                      (case deliverFiltered clock (Suc i) topic payload flt rest s of
                         (err, rs, s') \<Rightarrow> (err, False # rs, s'))
                  | Inr s1 \<Rightarrow>
                      (case deliverFiltered clock (Suc i) topic payload flt rest s1 of
                         (err, rs, s') \<Rightarrow> (err, True # rs, s')))))"

text \<open>
  \<^verbatim>\<open>publishToSubscribers\<close> returns a count or rejects with an exception; either way it
  leaves a state. An exception that leaves the loop reaches the outer \<^verbatim>\<open>catch\<close>, which logs
  an error and throws it again; the statistics are then not updated. The handlers of the
  promises pushed before that still run, so the state is the one they leave.
\<close>

definition publishToSubscribers :: "(nat \<Rightarrow> int) \<Rightarrow> string \<Rightarrow> 'p \<Rightarrow> 'p subscription_filter \<Rightarrow> 'p manager \<Rightarrow> (error + nat) \<times> 'p manager" where
  "publishToSubscribers clock topic payload flt s =
     (let s0 = log_to Debug ''Publishing to filtered subscribers'' s in
      case map_of (subscriptionConnections s0) topic of
        None \<Rightarrow> (Inr 0, s0)
      | Some connectionIds \<Rightarrow>
          if length connectionIds = 0 then (Inr 0, s0)
          else
            (case deliverFiltered clock 0 topic payload flt connectionIds s0 of
               (Some error, outcomes, s1) \<Rightarrow>
                 (case settle ''Failed to publish to filtered connection'' outcomes
                         (log_to Err ''Failed to publish to filtered subscribers'' s1) of
                    (successCount, s2) \<Rightarrow> (Inl error, s2))
             | (None, outcomes, s1) \<Rightarrow>
                 (case settle ''Failed to publish to filtered connection'' outcomes s1 of
                    (successCount, s2) \<Rightarrow>
                      (let s3 = s2\<lparr>stats := (stats s2)\<lparr>messagesSent := messagesSent (stats s2) + int successCount\<rparr>\<rparr>
                       in (Inr successCount, log_to Info ''Published to filtered subscribers'' s3)))))"

definition getConnection :: "string \<Rightarrow> 'p manager \<Rightarrow> connection option" where
  "getConnection connectionId s = map_of (connections s) connectionId"

definition getStats :: "'p manager \<Rightarrow> subscription_stats" where
  "getStats s = stats s"

text \<open>
  \<^verbatim>\<open>closeConnection\<close>, up to the end of its loop: the record is marked inactive in place
  and \<^verbatim>\<open>unsubscribe\<close> is awaited for each element of \<^verbatim>\<open>connection.subscriptions\<close>.
\<close>

definition markInactiveAndCascade :: "string \<Rightarrow> connection \<Rightarrow> 'p manager \<Rightarrow> 'p manager" where
  "markInactiveAndCascade connectionId connection s =
     (let s1 = s\<lparr>connections :=
                   AList.update connectionId (connection\<lparr>isActive := False\<rparr>) (connections s)\<rparr>
      in fold (\<lambda>subscriptionId st. snd (unsubscribe subscriptionId st))
           (conn_subscriptions connection) s1)"

text \<open>After the loop the record is deleted and the gauge decremented.\<close>

definition closeConnection :: "string \<Rightarrow> 'p manager \<Rightarrow> bool \<times> 'p manager" where
  "closeConnection connectionId s =
     (let s0 = log_to Debug ''Closing connection'' s in
      case map_of (connections s0) connectionId of
        None \<Rightarrow> (False, s0)
      | Some connection \<Rightarrow>
          (let s2 = markInactiveAndCascade connectionId connection s0;
               s3 = s2\<lparr>connections := AList.delete connectionId (connections s2)\<rparr>;
               s4 = s3\<lparr>stats := (stats s3)\<lparr>activeConnections := activeConnections (stats s3) - 1\<rparr>\<rparr>
           in (True, log_to Info ''Connection closed'' s4)))"

text \<open>
  \<^verbatim>\<open>closeConnection\<close> above is the method running alone. Each \<^verbatim>\<open>await\<close> of its loop
  suspends it, and another call may run in between. The pieces that run without suspension
  are these: the start, up to the first \<^verbatim>\<open>await\<close> (the \<^verbatim>\<open>unsubscribe\<close> called there
  has no \<^verbatim>\<open>await\<close> of its own and has then run), or up to the return when the connection
  is unknown or holds nothing; and each resumption, up to the next \<^verbatim>\<open>await\<close> or the
  return. A suspended call is its connection id and the ids its loop has still to visit (no
  call running in between is taken to add to the set being iterated).
\<close>

datatype close_task = Awaiting string "string list"

definition closeConnection_finish :: "string \<Rightarrow> 'p manager \<Rightarrow> 'p manager" where
  "closeConnection_finish connectionId s =
     (let s3 = s\<lparr>connections := AList.delete connectionId (connections s)\<rparr>;
          s4 = s3\<lparr>stats := (stats s3)\<lparr>activeConnections := activeConnections (stats s3) - 1\<rparr>\<rparr>
      in log_to Info ''Connection closed'' s4)"

definition closeConnection_start :: "string \<Rightarrow> 'p manager \<Rightarrow> (bool + close_task) \<times> 'p manager" where
  "closeConnection_start connectionId s =
     (let s0 = log_to Debug ''Closing connection'' s in
      case map_of (connections s0) connectionId of
        None \<Rightarrow> (Inl False, s0)
      | Some connection \<Rightarrow>
          (let s1 = s0\<lparr>connections :=
                        AList.update connectionId (connection\<lparr>isActive := False\<rparr>) (connections s0)\<rparr>
           in case conn_subscriptions connection of
                [] \<Rightarrow> (Inl True, closeConnection_finish connectionId s1)
              | subscriptionId # rest \<Rightarrow>
                  (Inr (Awaiting connectionId rest), snd (unsubscribe subscriptionId s1))))"

fun closeConnection_resume :: "close_task \<Rightarrow> 'p manager \<Rightarrow> (bool + close_task) \<times> 'p manager" where
  "closeConnection_resume (Awaiting connectionId []) s =
     (Inl True, closeConnection_finish connectionId s)"
| "closeConnection_resume (Awaiting connectionId (subscriptionId # rest)) s =
     (Inr (Awaiting connectionId rest), snd (unsubscribe subscriptionId s))"

text \<open>A suspended call resumed until it returns, with nothing running in between.\<close>

definition remaining :: "close_task \<Rightarrow> string list" where
  "remaining t = (case t of Awaiting connectionId ids \<Rightarrow> ids)"

function closeConnection_complete :: "close_task \<Rightarrow> 'p manager \<Rightarrow> bool \<times> 'p manager" where
  "closeConnection_complete (Awaiting connectionId []) s =
     (True, closeConnection_finish connectionId s)"
| "closeConnection_complete (Awaiting connectionId (subscriptionId # rest)) s =
     closeConnection_complete (Awaiting connectionId rest) (snd (unsubscribe subscriptionId s))"
  by pat_completeness auto
termination
  by (relation "measure (\<lambda>(t, s). length (remaining t))") (auto simp: remaining_def)

definition registerConnection :: "connection \<Rightarrow> 'p manager \<Rightarrow> 'p manager" where
  "registerConnection connection s =
     (let s1 = s\<lparr>connections := AList.update (conn_id connection) connection (connections s)\<rparr>;
          s2 = s1\<lparr>stats := (stats s1)\<lparr>activeConnections := activeConnections (stats s1) + 1\<rparr>\<rparr>;
          s3 = s2\<lparr>stats := (stats s2)\<lparr>peakConnections :=
                  max (peakConnections (stats s2)) (activeConnections (stats s2))\<rparr>\<rparr>
      in log_to Info ''Connection registered'' s3)"

definition addSubscriptionToConnection :: "string \<Rightarrow> string \<Rightarrow> string \<Rightarrow> 'p manager \<Rightarrow> 'p manager" where
  "addSubscriptionToConnection connectionId subscriptionId topic s =
     (case map_of (connections s) connectionId of
        None \<Rightarrow> s
      | Some connection \<Rightarrow>
          (let s1 = s\<lparr>connections :=
                       AList.update connectionId
                         (connection\<lparr>conn_subscriptions := set_add subscriptionId (conn_subscriptions connection)\<rparr>)
                         (connections s)\<rparr>;
               topicConnections = (case map_of (subscriptionConnections s1) topic of
                                     None \<Rightarrow> [] | Some cs \<Rightarrow> cs)
           in s1\<lparr>subscriptionConnections :=
                   AList.update topic (set_add connectionId topicConnections) (subscriptionConnections s1)\<rparr>))"

section \<open>Health\<close>

text \<open>
  The messages pushed by \<^verbatim>\<open>healthCheck\<close>, each with the number it formats.
\<close>

datatype issue = StaleConnections nat | HighErrorRate rat | HighMemoryUsage rat

record subscription_health =
  healthy :: bool
  health_connections :: int
  memoryUsage :: rat
  latency :: int
  errors :: "issue list"
  warnings :: "issue list"

text \<open>
  The literal \<^verbatim>\<open>0.1\<close> is the double nearest to one tenth, which is this rational.
\<close>

definition errorRateThreshold :: rat where
  "errorRateThreshold = 3602879701896397 / 36028797018963968"

definition calculateAverageLatency :: "'p manager \<Rightarrow> int" where
  "calculateAverageLatency s = 50"

text \<open>
  \<open>now\<close> is \<^verbatim>\<open>Date.now()\<close> and \<open>heapUsed\<close> is \<^verbatim>\<open>process.memoryUsage().heapUsed\<close>, in
  bytes.
\<close>

definition healthCheck :: "int \<Rightarrow> nat \<Rightarrow> 'p manager \<Rightarrow> subscription_health" where
  "healthCheck now heapUsed s =
     (let staleConnections =
            length (filter (\<lambda>(k, connection). now - lastActivity connection > 300000) (connections s));
          warnings1 = (if staleConnections > 0 then [StaleConnections staleConnections] else []);
          errors1 = (if errorRate (stats s) > errorRateThreshold
                     then [HighErrorRate (errorRate (stats s))] else []);
          memoryUsage1 = of_nat heapUsed / 1024 / 1024;
          warnings2 = (if memoryUsage1 > 512 then warnings1 @ [HighMemoryUsage memoryUsage1] else warnings1);
          healthy1 = (length errors1 = 0);
          latency1 = calculateAverageLatency s
      in \<lparr> healthy = healthy1, health_connections = activeConnections (stats s),
           memoryUsage = memoryUsage1, latency = latency1, errors = errors1, warnings = warnings2 \<rparr>)"

section \<open>Observations and scenarios\<close>

text \<open>The keys of the subscription table: the live subscriptions.\<close>

definition live_subscriptions :: "'p manager \<Rightarrow> string set" where
  "live_subscriptions s = fst ` set (subscriptions s)"

text \<open>The set stored for a topic, empty when the topic has no entry.\<close>

definition topic_ids :: "'p manager \<Rightarrow> string \<Rightarrow> string list" where
  "topic_ids s topic = (case map_of (subscriptionConnections s) topic of None \<Rightarrow> [] | Some cs \<Rightarrow> cs)"

text \<open>The test of \<^verbatim>\<open>publishToConnection\<close>: the id is registered and the record active.\<close>

definition deliverable :: "'p manager \<Rightarrow> string \<Rightarrow> bool" where
  "deliverable s connectionId =
     (case map_of (connections s) connectionId of None \<Rightarrow> False | Some c \<Rightarrow> isActive c)"

text \<open>
  The publish-time filter, on the record registered under an id: it returns \<^verbatim>\<open>true\<close>
  (\<open>passes\<close>), it throws a value with a message (\<open>filter_throws\<close>), it throws
  \<^verbatim>\<open>null\<close> or \<^verbatim>\<open>undefined\<close> (\<open>throws_nullish\<close>). \<open>reached\<close> is the part of a
  topic's set that the loop visits: the ids before the first on which the filter throws
  \<^verbatim>\<open>null\<close> or \<^verbatim>\<open>undefined\<close>.
\<close>

definition passes :: "'p subscription_filter \<Rightarrow> 'p \<Rightarrow> 'p manager \<Rightarrow> string \<Rightarrow> bool" where
  "passes flt payload s connectionId =
     (case map_of (connections s) connectionId of
        None \<Rightarrow> False | Some c \<Rightarrow> flt payload [] c = Inr True)"

definition filter_throws :: "'p subscription_filter \<Rightarrow> 'p \<Rightarrow> 'p manager \<Rightarrow> string \<Rightarrow> bool" where
  "filter_throws flt payload s connectionId =
     (case map_of (connections s) connectionId of
        None \<Rightarrow> False
      | Some c \<Rightarrow> (case flt payload [] c of Inl (ThrownValue message) \<Rightarrow> True | _ \<Rightarrow> False))"

definition throws_nullish :: "'p subscription_filter \<Rightarrow> 'p \<Rightarrow> 'p manager \<Rightarrow> string \<Rightarrow> bool" where
  "throws_nullish flt payload s connectionId =
     (case map_of (connections s) connectionId of
        None \<Rightarrow> False | Some c \<Rightarrow> flt payload [] c = Inl ThrownNullish)"

definition reached :: "'p subscription_filter \<Rightarrow> 'p \<Rightarrow> 'p manager \<Rightarrow> string list \<Rightarrow> string list" where
  "reached flt payload s ids = takeWhile (\<lambda>x. \<not> throws_nullish flt payload s x) ids"

text \<open>The number of warnings about a throwing filter in the log.\<close>

definition filter_warnings :: "'p manager \<Rightarrow> nat" where
  "filter_warnings s = length (filter (\<lambda>e. e = (Warn, ''Subscription filter error'')) (logger s))"

text \<open>The position of an element in a set's iteration order.\<close>

fun index_of :: "'a \<Rightarrow> 'a list \<Rightarrow> nat" where
  "index_of x [] = 0"
| "index_of x (y # ys) = (if x = y then 0 else Suc (index_of x ys))"

text \<open>Sequences of \<^verbatim>\<open>subscribe\<close> and \<^verbatim>\<open>unsubscribe\<close> calls.\<close>

datatype 'p operation = Subscribe string nat string "'p resolver" | Unsubscribe string

fun perform :: "'p operation \<Rightarrow> 'p manager \<Rightarrow> 'p manager" where
  "perform (Subscribe rnd now name r) s = snd (subscribe rnd now name r s)"
| "perform (Unsubscribe subscriptionId) s = snd (unsubscribe subscriptionId s)"

definition run_calls :: "'p operation list \<Rightarrow> 'p manager \<Rightarrow> 'p manager" where
  "run_calls cs s = fold perform cs s"

text \<open>Every \<^verbatim>\<open>subscribe\<close> of the sequence generates an id that is not live at that moment.\<close>

fun fresh_ids :: "'p operation list \<Rightarrow> 'p manager \<Rightarrow> bool" where
  "fresh_ids [] s = True"
| "fresh_ids (Subscribe rnd now name r # cs) s =
     (generateId rnd now \<notin> live_subscriptions s \<and> fresh_ids cs (perform (Subscribe rnd now name r) s))"
| "fresh_ids (Unsubscribe subscriptionId # cs) s = fresh_ids cs (perform (Unsubscribe subscriptionId) s)"

text \<open>Concrete connections, resolvers, filters and states.\<close>

definition example_connection :: "string \<Rightarrow> connection" where
  "example_connection cid =
     \<lparr> conn_id = cid, userId = None, startTime = 0, lastActivity = 0,
       conn_subscriptions = [], conn_metadata = [], isActive = True \<rparr>"

definition plain_resolver :: "unit resolver" where
  "plain_resolver = \<lparr> resolve = None, res_filter = None \<rparr>"

definition throwing_filter :: "unit subscription_filter" where
  "throwing_filter payload variables context = Inl (ThrownValue ''filter failed'')"

text \<open>A filter that throws on \<open>c1\<close> and accepts \<open>c3\<close> only.\<close>

definition selective_filter :: "unit subscription_filter" where
  "selective_filter payload variables context =
     (if conn_id context = ''c1'' then Inl (ThrownValue ''filter failed'')
      else Inr (conn_id context = ''c3''))"

text \<open>A filter that throws \<^verbatim>\<open>null\<close> on \<open>c2\<close> and accepts every other connection.\<close>

definition nullish_filter :: "unit subscription_filter" where
  "nullish_filter payload variables context =
     (if conn_id context = ''c2'' then Inl ThrownNullish else Inr True)"

text \<open>A clock that reads 100, 101, 102, ... at successive positions of a fan-out.\<close>

definition tick_clock :: "nat \<Rightarrow> int" where
  "tick_clock i = 100 + int i"

text \<open>The count returned by a \<^verbatim>\<open>publish\<close> call.\<close>

definition delivered_count :: "error + (nat \<times> 'p manager) \<Rightarrow> nat option" where
  "delivered_count r = (case r of Inl e \<Rightarrow> None | Inr (n, s) \<Rightarrow> Some n)"

definition two_connections :: "unit manager" where
  "two_connections =
     registerConnection (example_connection ''c2'')
       (registerConnection (example_connection ''c1'') (init 0))"

text \<open>One connection \<open>c1\<close> holding the subscription \<open>a0\<close> on the topic \<open>orders\<close>.\<close>

definition linked_subscription :: "unit manager" where
  "linked_subscription =
     addSubscriptionToConnection ''c1'' ''a0'' ''orders''
       (snd (subscribe ''0.a'' 0 ''orders'' plain_resolver
         (registerConnection (example_connection ''c1'') (init 0))))"

text \<open>One connection holding three subscriptions on \<open>orders\<close>.\<close>

definition one_connection_three_subscriptions :: "unit manager" where
  "one_connection_three_subscriptions =
     addSubscriptionToConnection ''c1'' ''c0'' ''orders''
      (addSubscriptionToConnection ''c1'' ''b0'' ''orders''
       (addSubscriptionToConnection ''c1'' ''a0'' ''orders''
        (snd (subscribe ''0.c'' 0 ''orders'' plain_resolver
         (snd (subscribe ''0.b'' 0 ''orders'' plain_resolver
          (snd (subscribe ''0.a'' 0 ''orders'' plain_resolver
           (registerConnection (example_connection ''c1'') (init 0))))))))))"

text \<open>Three subscriptions on \<open>orders\<close> made by \<^verbatim>\<open>subscribe\<close> alone.\<close>

definition three_subscriptions_unlinked :: "unit manager" where
  "three_subscriptions_unlinked =
     snd (subscribe ''0.c'' 0 ''orders'' plain_resolver
      (snd (subscribe ''0.b'' 0 ''orders'' plain_resolver
       (snd (subscribe ''0.a'' 0 ''orders'' plain_resolver (init 0))))))"

text \<open>Three connections, each holding one subscription on \<open>orders\<close>.\<close>

definition three_connections :: "unit manager" where
  "three_connections =
     addSubscriptionToConnection ''c3'' ''c0'' ''orders''
      (addSubscriptionToConnection ''c2'' ''b0'' ''orders''
       (addSubscriptionToConnection ''c1'' ''a0'' ''orders''
        (snd (subscribe ''0.c'' 0 ''orders'' plain_resolver
         (snd (subscribe ''0.b'' 0 ''orders'' plain_resolver
          (snd (subscribe ''0.a'' 0 ''orders'' plain_resolver
           (registerConnection (example_connection ''c3'')
            (registerConnection (example_connection ''c2'')
             (registerConnection (example_connection ''c1'') (init 0))))))))))))"

text \<open>A connection that was linked under an id that is no live subscription: its own.\<close>

definition self_named :: "unit manager" where
  "self_named =
     addSubscriptionToConnection ''c1'' ''c1'' ''orders''
       (registerConnection (example_connection ''c1'') (init 0))"

text \<open>
  Two overlapping calls \<^verbatim>\<open>closeConnection('c1')\<close> on the state with one linked
  subscription: the second starts while the first is suspended at its \<^verbatim>\<open>await\<close>, then the
  first is resumed, then the second.
\<close>

definition first_close_started :: "(bool + close_task) \<times> unit manager" where
  "first_close_started = closeConnection_start ''c1'' linked_subscription"

definition second_close_started :: "(bool + close_task) \<times> unit manager" where
  "second_close_started = closeConnection_start ''c1'' (snd first_close_started)"

definition first_close_resumed :: "(bool + close_task) \<times> unit manager" where
  "first_close_resumed = closeConnection_resume (Awaiting ''c1'' []) (snd second_close_started)"

definition second_close_resumed :: "(bool + close_task) \<times> unit manager" where
  "second_close_resumed = closeConnection_resume (Awaiting ''c1'' []) (snd first_close_resumed)"

text \<open>The state with three connections after \<open>c2\<close> was closed.\<close>

definition after_close :: "unit manager" where
  "after_close = snd (closeConnection ''c2'' three_connections)"

section \<open>Basic facts\<close>

lemma log_to_fields [simp]:
  "subscriptions (log_to l m s) = subscriptions s"
  "connections (log_to l m s) = connections s"
  "subscriptionConnections (log_to l m s) = subscriptionConnections s"
  "stats (log_to l m s) = stats s"
  "logger (log_to l m s) = logger s @ [(l, m)]"
  by (simp_all add: log_to_def)

lemma map_has_keys: "map_has al k = (k \<in> fst ` set al)"
  by (simp add: map_has_def map_of_eq_None_iff)

lemma delete_absent: "map_of al k = None \<Longrightarrow> AList.delete k al = al"
  by (induction al) (auto simp: AList.delete_eq split: if_splits)

lemma keys_delete: "fst ` set (AList.delete k al) = fst ` set al - {k}"
  by (induction al) (auto simp: AList.delete_eq)

lemma set_delete_eq: "set_delete x = removeAll x"
  by (rule ext) (simp add: set_delete_def)

lemma live_init: "live_subscriptions (init t) = {}"
  by (simp add: live_subscriptions_def init_def)

subsection \<open>Base-36 strings\<close>

lemma toString36_0: "toString36 0 = ''0''"
  by (simp add: toString36.simps digit36_def)

lemma digit36_inj:
  assumes "a < 36" "b < 36" "digit36 a = digit36 b"
  shows "a = b"
proof -
  have d: "distinct ''0123456789abcdefghijklmnopqrstuvwxyz''" by simp
  have l: "length ''0123456789abcdefghijklmnopqrstuvwxyz'' = 36" by simp
  from assms show ?thesis
    unfolding digit36_def using d l by (metis nth_eq_iff_index_eq)
qed

lemma toString36_nonempty: "toString36 n \<noteq> []"
  by (subst toString36.simps) simp

lemma toString36_inj: "toString36 a = toString36 b \<Longrightarrow> a = b"
proof (induction a arbitrary: b rule: toString36.induct)
  case (1 n)
  show ?case
  proof (cases "n < 36")
    case small: True
    show ?thesis
    proof (cases "b < 36")
      case True
      with small "1.prems" show ?thesis
        by (simp add: toString36.simps[of n] toString36.simps[of b] digit36_inj)
    next
      case False
      with small "1.prems" toString36_nonempty[of "b div 36"] show ?thesis
        by (simp add: toString36.simps[of n] toString36.simps[of b])
    qed
  next
    case big: False
    show ?thesis
    proof (cases "b < 36")
      case True
      with big "1.prems" toString36_nonempty[of "n div 36"] show ?thesis
        by (simp add: toString36.simps[of n] toString36.simps[of b])
    next
      case False
      with big "1.prems" have e: "toString36 (n div 36) = toString36 (b div 36)"
        and d: "digit36 (n mod 36) = digit36 (b mod 36)"
        by (simp_all add: toString36.simps[of n] toString36.simps[of b])
      from "1.IH"[OF big e] have q: "n div 36 = b div 36" .
      from d have r: "n mod 36 = b mod 36" by (intro digit36_inj) simp_all
      from q r show ?thesis by (metis div_mult_mod_eq)
    qed
  qed
qed

subsection \<open>\<^verbatim>\<open>subscribe\<close>, field by field\<close>

lemma subscribe_id: "fst (subscribe rnd now name r s) = generateId rnd now"
  by (simp add: subscribe_def Let_def)

lemma subscribe_subscriptions:
  "subscriptions (snd (subscribe rnd now name r s)) = AList.update (generateId rnd now) r (subscriptions s)"
  by (simp add: subscribe_def Let_def)

lemma subscribe_live:
  "live_subscriptions (snd (subscribe rnd now name r s)) = insert (generateId rnd now) (live_subscriptions s)"
  by (simp add: live_subscriptions_def subscribe_subscriptions dom_update)

lemma subscribe_total:
  "totalSubscriptions (stats (snd (subscribe rnd now name r s))) = totalSubscriptions (stats s) + 1"
  by (simp add: subscribe_def Let_def)

lemma subscribe_connections: "connections (snd (subscribe rnd now name r s)) = connections s"
  by (simp add: subscribe_def Let_def)

lemma subscribe_topic_ids: "topic_ids (snd (subscribe rnd now name r s)) t = topic_ids s t"
  by (simp add: subscribe_def Let_def topic_ids_def map_has_def update_conv')

subsection \<open>\<^verbatim>\<open>unsubscribe\<close>, field by field\<close>

lemma unsubscribe_result: "fst (unsubscribe sid s) = map_has (subscriptions s) sid"
  by (simp add: unsubscribe_def Let_def)

lemma unsubscribe_subscriptions:
  "subscriptions (snd (unsubscribe sid s)) = AList.delete sid (subscriptions s)"
  by (simp add: unsubscribe_def Let_def)

lemma unsubscribe_live:
  "live_subscriptions (snd (unsubscribe sid s)) = live_subscriptions s - {sid}"
  by (simp add: live_subscriptions_def unsubscribe_subscriptions keys_delete)

lemma unsubscribe_total:
  "totalSubscriptions (stats (snd (unsubscribe sid s)))
     = (if map_has (subscriptions s) sid then totalSubscriptions (stats s) - 1
        else totalSubscriptions (stats s))"
  by (simp add: unsubscribe_def Let_def)

lemma unsubscribe_connections: "connections (snd (unsubscribe sid s)) = connections s"
  by (simp add: unsubscribe_def Let_def)

lemma unsubscribe_topics:
  "map_of (subscriptionConnections (snd (unsubscribe sid s))) t
     = (if map_has (subscriptions s) sid
        then map_option (removeAll sid) (map_of (subscriptionConnections s) t)
        else map_of (subscriptionConnections s) t)"
  by (simp add: unsubscribe_def Let_def map_ran_conv set_delete_eq)

lemma unsubscribe_topic_keys:
  "map fst (subscriptionConnections (snd (unsubscribe sid s))) = map fst (subscriptionConnections s)"
  by (simp add: unsubscribe_def Let_def AList.map_ran_def split_def comp_def)

lemma unsubscribe_topic_ids:
  "topic_ids (snd (unsubscribe sid s)) t
     = (if map_has (subscriptions s) sid then removeAll sid (topic_ids s t) else topic_ids s t)"
  by (simp add: topic_ids_def unsubscribe_topics split: option.splits)

lemma unsubscribe_unknown:
  "\<not> map_has (subscriptions s) sid \<Longrightarrow>
   snd (unsubscribe sid s) = s\<lparr>logger := logger s @ [(Debug, ''Unsubscribing'')]\<rparr>"
  by (simp add: unsubscribe_def Let_def map_has_def delete_absent log_to_def)

section \<open>Connection registration\<close>

text \<open>
  Claim C1, as the code has it: \<^verbatim>\<open>registerConnection\<close> has no capacity check and no
  failure. It always stores the record it is given under the record's id (replacing a
  record of the same id, and keeping the \<^verbatim>\<open>isActive\<close> value supplied), adds one to
  \<open>activeConnections\<close> and raises \<open>peakConnections\<close> to the new gauge when that is larger.
  The subscription table and the topic index are not touched.
\<close>

theorem registerConnection_always_inserts:
  "map_of (connections (registerConnection c s)) = (map_of (connections s))(conn_id c \<mapsto> c)
   \<and> activeConnections (stats (registerConnection c s)) = activeConnections (stats s) + 1
   \<and> peakConnections (stats (registerConnection c s))
       = max (peakConnections (stats s)) (activeConnections (stats s) + 1)
   \<and> subscriptions (registerConnection c s) = subscriptions s
   \<and> subscriptionConnections (registerConnection c s) = subscriptionConnections s"
  by (simp add: registerConnection_def Let_def update_conv')

text \<open>
  Claim C1 as stated fails: with two connections registered and a limit of two, a third
  registration is stored and the gauge goes to three; and a record registered with
  \<^verbatim>\<open>isActive\<close> false is stored with \<^verbatim>\<open>isActive\<close> false.
\<close>

theorem registerConnection_at_capacity:
  "activeConnections (stats two_connections) \<ge> 2
   \<and> getConnection ''c3'' (registerConnection (example_connection ''c3'') two_connections)
       = Some (example_connection ''c3'')
   \<and> activeConnections (stats (registerConnection (example_connection ''c3'') two_connections)) = 3
   \<and> map_option isActive
         (getConnection ''c4''
            (registerConnection ((example_connection ''c4'')\<lparr>isActive := False\<rparr>) (init 0 :: unit manager)))
       = Some False"
  by (simp add: two_connections_def registerConnection_def Let_def init_def example_connection_def
      getConnection_def)

section \<open>Publishing to a topic without subscribers\<close>

text \<open>
  Claim C7: when the topic has no entry in the index, or an empty set, \<^verbatim>\<open>publish\<close> returns
  0 and the statistics, the connection records, the subscription table and the topic index
  are the same after the call as before.
\<close>

theorem publish_no_subscribers:
  assumes "map_of (subscriptionConnections s) topic = None
           \<or> map_of (subscriptionConnections s) topic = Some []"
  shows "\<exists>s'. publish clock topic payload s = Inr (0, s')
           \<and> stats s' = stats s \<and> connections s' = connections s
           \<and> subscriptions s' = subscriptions s
           \<and> subscriptionConnections s' = subscriptionConnections s"
  using assms by (auto simp: publish_def Let_def)

text \<open>Claim C7 on the freshly constructed manager.\<close>

theorem publish_no_subscribers_witness:
  "map_of (subscriptionConnections (init 0 :: unit manager)) ''orders'' = None
   \<and> (\<exists>s'. publish tick_clock ''orders'' () (init 0 :: unit manager) = Inr (0, s')
           \<and> stats s' = stats (init 0 :: unit manager)
           \<and> connections s' = connections (init 0 :: unit manager)
           \<and> subscriptions s' = subscriptions (init 0 :: unit manager)
           \<and> subscriptionConnections s' = subscriptionConnections (init 0 :: unit manager))"
proof -
  have h: "map_of (subscriptionConnections (init 0 :: unit manager)) ''orders'' = None"
    by (simp add: init_def)
  from h publish_no_subscribers[of "init 0 :: unit manager" "''orders''" tick_clock "()"]
  show ?thesis by blast
qed

section \<open>Health\<close>

text \<open>
  Claim C8, as the code has it: \<open>healthy\<close> is decided by the error rate alone. It is true
  exactly when the error rate does not exceed the threshold \<^verbatim>\<open>0.1\<close> (so it is false whenever
  the rate exceeds 10%), whatever the time, the heap size and the connections are: stale
  connections and memory above 512 MB only add warnings.
\<close>

theorem healthCheck_healthy_iff:
  "healthy (healthCheck now heapUsed s) = (errorRate (stats s) \<le> errorRateThreshold)
   \<and> errors (healthCheck now heapUsed s)
       = (if errorRate (stats s) > errorRateThreshold then [HighErrorRate (errorRate (stats s))] else [])
   \<and> warnings (healthCheck now heapUsed s)
       = (if length (filter (\<lambda>(k, c). now - lastActivity c > 300000) (connections s)) > 0
          then [StaleConnections (length (filter (\<lambda>(k, c). now - lastActivity c > 300000) (connections s)))]
          else [])
         @ (if of_nat heapUsed / 1024 / 1024 > (512 :: rat)
            then [HighMemoryUsage (of_nat heapUsed / 1024 / 1024)] else [])"
  by (simp add: healthCheck_def Let_def)

text \<open>
  Claim C8 as stated fails: with 600 MB of heap in use, above the 512 MB threshold, the
  manager is reported healthy.
\<close>

theorem healthCheck_high_memory_healthy:
  "memoryUsage (healthCheck 0 (600 * 1024 * 1024) (init 0 :: unit manager)) > 512
   \<and> healthy (healthCheck 0 (600 * 1024 * 1024) (init 0 :: unit manager))"
  by (simp add: healthCheck_def Let_def init_def errorRateThreshold_def)

section \<open>Subscription identifiers\<close>

text \<open>
  Claim C9, as the code has it: the id is the random string followed by the time in base 36,
  with no counter. For two \<^verbatim>\<open>subscribe\<close> calls whose random parts have the same length, or
  whose times have base-36 forms of the same length, the ids are equal exactly when both the
  random parts and the times are equal; so they differ as soon as one of the two differs.
\<close>

theorem subscribe_ids_equal_iff:
  assumes "length (drop 2 r1) = length (drop 2 r2) \<or> length (toString36 t1) = length (toString36 t2)"
  shows "(fst (subscribe r1 t1 name1 res1 s1) = fst (subscribe r2 t2 name2 res2 s2))
           = (drop 2 r1 = drop 2 r2 \<and> t1 = t2)"
proof -
  have "(drop 2 r1 @ toString36 t1 = drop 2 r2 @ toString36 t2)
          = (drop 2 r1 = drop 2 r2 \<and> toString36 t1 = toString36 t2)"
    using assms by (rule append_eq_append_conv)
  then show ?thesis
    by (auto simp: subscribe_id generateId_def dest: toString36_inj)
qed

text \<open>Claim C9 amended, at two calls in the same millisecond with different random strings.\<close>

theorem subscribe_ids_equal_iff_witness:
  "length (drop 2 ''0.a'') = length (drop 2 ''0.b'')
   \<and> fst (subscribe ''0.a'' 0 ''orders'' plain_resolver (init 0))
       \<noteq> fst (subscribe ''0.b'' 0 ''orders'' plain_resolver
               (snd (subscribe ''0.a'' 0 ''orders'' plain_resolver (init 0))))"
  using subscribe_ids_equal_iff[of "''0.a''" "''0.b''" 0 0 "''orders''" plain_resolver "init 0"
      "''orders''" plain_resolver "snd (subscribe ''0.a'' 0 ''orders'' plain_resolver (init 0))"]
  by simp

text \<open>
  Claim C9 as stated fails: two calls that draw the same random string in the same
  millisecond return the same id; the second overwrites the first entry of the table while
  the counter goes to 2.
\<close>

theorem subscribe_same_inputs_same_id:
  "fst (subscribe ''0.a'' 0 ''orders'' plain_resolver (init 0))
     = fst (subscribe ''0.a'' 0 ''orders'' plain_resolver
            (snd (subscribe ''0.a'' 0 ''orders'' plain_resolver (init 0))))
   \<and> live_subscriptions (snd (subscribe ''0.a'' 0 ''orders'' plain_resolver
            (snd (subscribe ''0.a'' 0 ''orders'' plain_resolver (init 0))))) = {''a0''}
   \<and> totalSubscriptions (stats (snd (subscribe ''0.a'' 0 ''orders'' plain_resolver
            (snd (subscribe ''0.a'' 0 ''orders'' plain_resolver (init 0)))))) = 2"
  by (simp add: subscribe_id subscribe_live subscribe_total live_init generateId_def toString36_0)
     (simp add: init_def)

section \<open>Sequences of \<^verbatim>\<open>subscribe\<close> and \<^verbatim>\<open>unsubscribe\<close>\<close>

lemma perform_total_live:
  assumes "totalSubscriptions (stats s) = int (card (live_subscriptions s))"
    and "fresh_ids (c # cs) s"
  shows "totalSubscriptions (stats (perform c s)) = int (card (live_subscriptions (perform c s)))"
proof (cases c)
  case (Subscribe rnd now name r)
  with assms(2) have "generateId rnd now \<notin> live_subscriptions s" by simp
  moreover have "finite (live_subscriptions s)" by (simp add: live_subscriptions_def)
  ultimately show ?thesis using assms(1) Subscribe
    by (simp add: subscribe_total subscribe_live)
next
  case (Unsubscribe sid)
  have fin: "finite (live_subscriptions s)" by (simp add: live_subscriptions_def)
  show ?thesis
  proof (cases "map_has (subscriptions s) sid")
    case True
    then have m: "sid \<in> live_subscriptions s" by (simp add: map_has_keys live_subscriptions_def)
    with fin have "card (live_subscriptions s) > 0" by (auto simp: card_gt_0_iff)
    with m fin assms(1) Unsubscribe True show ?thesis
      by (simp add: unsubscribe_total unsubscribe_live of_nat_diff)
  next
    case False
    then have "sid \<notin> live_subscriptions s" by (simp add: map_has_keys live_subscriptions_def)
    with assms(1) Unsubscribe False show ?thesis
      by (simp add: unsubscribe_total unsubscribe_live)
  qed
qed

lemma perform_frame:
  "connections (perform c s) = connections s \<and> set (topic_ids (perform c s) t) \<subseteq> set (topic_ids s t)"
  by (cases c) (auto simp: subscribe_connections unsubscribe_connections subscribe_topic_ids
      unsubscribe_topic_ids)

text \<open>
  Claim C2, as the code has it: from a state in which \<open>totalSubscriptions\<close> is the number of
  live subscriptions (the initial state is one), after any finite sequence of \<^verbatim>\<open>subscribe\<close>
  and \<^verbatim>\<open>unsubscribe\<close> calls in which every \<^verbatim>\<open>subscribe\<close> generates an id that is not live,
  \<open>totalSubscriptions\<close> is again the number of live subscriptions. The calls put no id into
  any topic's set and leave every connection record as it was: the topic sets hold
  connection ids, which only \<^verbatim>\<open>addSubscriptionToConnection\<close> adds.
\<close>

theorem subscribe_unsubscribe_total:
  assumes "totalSubscriptions (stats s) = int (card (live_subscriptions s))"
    and "fresh_ids cs s"
  shows "totalSubscriptions (stats (run_calls cs s)) = int (card (live_subscriptions (run_calls cs s)))
         \<and> connections (run_calls cs s) = connections s
         \<and> (\<forall>t. set (topic_ids (run_calls cs s) t) \<subseteq> set (topic_ids s t))"
  using assms
proof (induction cs arbitrary: s)
  case Nil
  then show ?case by (simp add: run_calls_def)
next
  case (Cons c cs)
  have inv: "totalSubscriptions (stats (perform c s)) = int (card (live_subscriptions (perform c s)))"
    using Cons.prems by (rule perform_total_live)
  have fr: "fresh_ids cs (perform c s)" using Cons.prems(2) by (cases c) simp_all
  from Cons.IH[OF inv fr] perform_frame[of c s] show ?case
    by (auto simp: run_calls_def)
qed

text \<open>Claim C2 amended, on a subscribe, an unsubscribe and a second subscribe from the initial state.\<close>

theorem subscribe_unsubscribe_total_witness:
  "totalSubscriptions (stats (init 0 :: unit manager)) = int (card (live_subscriptions (init 0 :: unit manager)))
   \<and> fresh_ids [Subscribe ''0.a'' 0 ''orders'' plain_resolver, Unsubscribe ''a0'',
        Subscribe ''0.b'' 0 ''orders'' plain_resolver] (init 0)
   \<and> totalSubscriptions (stats (run_calls [Subscribe ''0.a'' 0 ''orders'' plain_resolver, Unsubscribe ''a0'',
        Subscribe ''0.b'' 0 ''orders'' plain_resolver] (init 0)))
     = int (card (live_subscriptions (run_calls [Subscribe ''0.a'' 0 ''orders'' plain_resolver, Unsubscribe ''a0'',
        Subscribe ''0.b'' 0 ''orders'' plain_resolver] (init 0))))
   \<and> live_subscriptions (run_calls [Subscribe ''0.a'' 0 ''orders'' plain_resolver, Unsubscribe ''a0'',
        Subscribe ''0.b'' 0 ''orders'' plain_resolver] (init 0)) = {''b0''}"
proof -
  let ?cs = "[Subscribe ''0.a'' 0 ''orders'' plain_resolver, Unsubscribe ''a0'',
        Subscribe ''0.b'' 0 ''orders'' plain_resolver]"
  have h1: "totalSubscriptions (stats (init 0 :: unit manager)) = int (card (live_subscriptions (init 0 :: unit manager)))"
    by (simp add: live_init) (simp add: init_def)
  have h2: "fresh_ids ?cs (init 0)"
    by (simp add: subscribe_live unsubscribe_live generateId_def toString36_0 live_init)
  have l: "live_subscriptions (run_calls ?cs (init 0)) = {''b0''}"
    by (simp add: run_calls_def subscribe_live unsubscribe_live generateId_def toString36_0 live_init)
  from subscribe_unsubscribe_total[OF h1 h2] h1 h2 l show ?thesis by simp
qed

text \<open>
  Claim C2 as stated fails: after one \<^verbatim>\<open>subscribe\<close> on the initial state the subscription
  \<open>a0\<close> is live, the set of its topic is empty and there is no connection record, so the id
  is in no topic's set and in no connection's set.
\<close>

theorem subscribe_links_nothing:
  "fst (subscribe ''0.a'' 0 ''orders'' plain_resolver (init 0)) = ''a0''
   \<and> live_subscriptions (snd (subscribe ''0.a'' 0 ''orders'' plain_resolver (init 0))) = {''a0''}
   \<and> subscriptionConnections (snd (subscribe ''0.a'' 0 ''orders'' plain_resolver (init 0))) = [(''orders'', [])]
   \<and> connections (snd (subscribe ''0.a'' 0 ''orders'' plain_resolver (init 0))) = []"
  by (simp add: subscribe_def Let_def generateId_def toString36_0 init_def live_subscriptions_def map_has_def)

section \<open>Scenario states, evaluated\<close>

lemma linked_subscription_fields:
  "subscriptions linked_subscription = [(''a0'', plain_resolver)]"
  "connections linked_subscription = [(''c1'', (example_connection ''c1'')\<lparr>conn_subscriptions := [''a0'']\<rparr>)]"
  "subscriptionConnections linked_subscription = [(''orders'', [''c1''])]"
  "stats linked_subscription = \<lparr> activeConnections = 1, totalSubscriptions = 1, messagesSent = 0,
     messagesReceived = 0, averageConnectionDuration = 0, peakConnections = 1, errorRate = 0, uptime = 0 \<rparr>"
  by (simp_all add: linked_subscription_def addSubscriptionToConnection_def subscribe_def
      registerConnection_def init_def Let_def generateId_def toString36_0 example_connection_def
      map_has_def set_add_def)

lemma self_named_fields:
  "subscriptions self_named = []"
  "connections self_named = [(''c1'', (example_connection ''c1'')\<lparr>conn_subscriptions := [''c1'']\<rparr>)]"
  "subscriptionConnections self_named = [(''orders'', [''c1''])]"
  by (simp_all add: self_named_def addSubscriptionToConnection_def
      registerConnection_def init_def Let_def example_connection_def set_add_def)

section \<open>Unsubscribing\<close>

text \<open>
  Claim C6, as the code has it: \<^verbatim>\<open>unsubscribe\<close> returns true exactly when the id names a
  live subscription, and the id is not in the table afterwards. For a live id the counter
  goes down by one and the id is deleted from every topic's set; no topic entry is ever
  deleted from the index, also when its set is empty, and no connection record is changed.
  For an unknown id it returns false and the table, the index and the statistics stay as
  they were. A second call on the same id returns false.
\<close>

theorem unsubscribe_effect:
  "fst (unsubscribe sid s) = (sid \<in> live_subscriptions s)
   \<and> map_of (subscriptions (snd (unsubscribe sid s))) = (map_of (subscriptions s))(sid := None)
   \<and> (sid \<in> live_subscriptions s \<longrightarrow>
        totalSubscriptions (stats (snd (unsubscribe sid s))) = totalSubscriptions (stats s) - 1
        \<and> (\<forall>t. map_of (subscriptionConnections (snd (unsubscribe sid s))) t
                 = map_option (removeAll sid) (map_of (subscriptionConnections s) t)))
   \<and> map fst (subscriptionConnections (snd (unsubscribe sid s))) = map fst (subscriptionConnections s)
   \<and> connections (snd (unsubscribe sid s)) = connections s
   \<and> (sid \<notin> live_subscriptions s \<longrightarrow>
        subscriptions (snd (unsubscribe sid s)) = subscriptions s
        \<and> stats (snd (unsubscribe sid s)) = stats s
        \<and> subscriptionConnections (snd (unsubscribe sid s)) = subscriptionConnections s)
   \<and> \<not> fst (unsubscribe sid (snd (unsubscribe sid s)))"
proof -
  have live: "map_has (subscriptions s) sid = (sid \<in> live_subscriptions s)"
    by (simp add: map_has_keys live_subscriptions_def)
  have twice: "\<not> fst (unsubscribe sid (snd (unsubscribe sid s)))"
    by (simp add: unsubscribe_result map_has_keys unsubscribe_subscriptions keys_delete)
  have unknown: "sid \<notin> live_subscriptions s \<Longrightarrow>
        subscriptions (snd (unsubscribe sid s)) = subscriptions s
        \<and> stats (snd (unsubscribe sid s)) = stats s
        \<and> subscriptionConnections (snd (unsubscribe sid s)) = subscriptionConnections s"
    using live by (simp add: unsubscribe_unknown)
  show ?thesis
    using live twice unknown
    by (simp add: unsubscribe_result unsubscribe_subscriptions delete_conv' unsubscribe_total
        unsubscribe_topics unsubscribe_topic_keys unsubscribe_connections)
qed

text \<open>Claim C6 amended, on a live and on an unknown id of the state with one linked subscription.\<close>

theorem unsubscribe_effect_witness:
  "''a0'' \<in> live_subscriptions linked_subscription
   \<and> ''zz'' \<notin> live_subscriptions linked_subscription
   \<and> fst (unsubscribe ''a0'' linked_subscription)
   \<and> totalSubscriptions (stats (snd (unsubscribe ''a0'' linked_subscription))) = 0
   \<and> \<not> fst (unsubscribe ''a0'' (snd (unsubscribe ''a0'' linked_subscription)))
   \<and> \<not> fst (unsubscribe ''zz'' linked_subscription)
   \<and> stats (snd (unsubscribe ''zz'' linked_subscription)) = stats linked_subscription"
proof -
  have h1: "''a0'' \<in> live_subscriptions linked_subscription"
    by (simp add: live_subscriptions_def linked_subscription_fields)
  have h2: "''zz'' \<notin> live_subscriptions linked_subscription"
    by (simp add: live_subscriptions_def linked_subscription_fields)
  from h1 h2 unsubscribe_effect[of "''a0''" linked_subscription]
    unsubscribe_effect[of "''zz''" linked_subscription]
  show ?thesis by (simp add: linked_subscription_fields)
qed

text \<open>
  Claim C6 as stated fails: after \<^verbatim>\<open>unsubscribe\<close> of the linked subscription \<open>a0\<close> the
  connection \<open>c1\<close> still lists \<open>a0\<close> among its subscriptions and the topic keeps its set;
  and after \<^verbatim>\<open>subscribe\<close> and \<^verbatim>\<open>unsubscribe\<close> alone the topic keeps its empty set.
\<close>

theorem unsubscribe_keeps_links:
  "fst (unsubscribe ''a0'' linked_subscription)
   \<and> map_option conn_subscriptions (getConnection ''c1'' (snd (unsubscribe ''a0'' linked_subscription)))
       = Some [''a0'']
   \<and> subscriptionConnections (snd (unsubscribe ''a0'' linked_subscription)) = [(''orders'', [''c1''])]
   \<and> subscriptionConnections
        (snd (unsubscribe ''a0'' (snd (subscribe ''0.a'' 0 ''orders'' plain_resolver (init 0)))))
       = [(''orders'', [])]"
  by (simp add: unsubscribe_def Let_def linked_subscription_fields getConnection_def map_has_def
      AList.map_ran_def set_delete_def subscribe_def generateId_def toString36_0 init_def)

section \<open>Closing a connection\<close>

lemma live_subscriptions_eq:
  "subscriptions s1 = subscriptions s \<Longrightarrow> live_subscriptions s1 = live_subscriptions s"
  by (simp add: live_subscriptions_def)

lemma topic_ids_eq:
  "subscriptionConnections s1 = subscriptionConnections s \<Longrightarrow> topic_ids s1 t = topic_ids s t"
  by (simp add: topic_ids_def)

lemma live_subscriptions_frame [simp]:
  "live_subscriptions (s\<lparr>connections := x\<rparr>) = live_subscriptions s"
  "live_subscriptions (s\<lparr>stats := y\<rparr>) = live_subscriptions s"
  "live_subscriptions (log_to l m s) = live_subscriptions s"
  by (simp_all add: live_subscriptions_def)

lemma topic_ids_frame [simp]:
  "topic_ids (s\<lparr>connections := x\<rparr>) t = topic_ids s t"
  "topic_ids (s\<lparr>stats := y\<rparr>) t = topic_ids s t"
  "topic_ids (log_to l m s) t = topic_ids s t"
  by (simp_all add: topic_ids_def)

lemma cascade_connections:
  "connections (fold (\<lambda>sid st. snd (unsubscribe sid st)) ids s) = connections s"
  by (induction ids arbitrary: s) (simp_all add: unsubscribe_connections)

lemma cascade_active:
  "activeConnections (stats (fold (\<lambda>sid st. snd (unsubscribe sid st)) ids s)) = activeConnections (stats s)"
  by (induction ids arbitrary: s) (simp_all add: unsubscribe_def Let_def)

lemma cascade_live:
  "live_subscriptions (fold (\<lambda>sid st. snd (unsubscribe sid st)) ids s) = live_subscriptions s - set ids"
  by (induction ids arbitrary: s) (auto simp: unsubscribe_live)

lemma cascade_topic_ids:
  "topic_ids (fold (\<lambda>sid st. snd (unsubscribe sid st)) ids s) t
     = filter (\<lambda>x. \<not> (x \<in> set ids \<and> x \<in> live_subscriptions s)) (topic_ids s t)"
proof (induction ids arbitrary: s)
  case Nil
  show ?case by simp
next
  case (Cons a ids)
  have live: "map_has (subscriptions s) a = (a \<in> live_subscriptions s)"
    by (simp add: map_has_keys live_subscriptions_def)
  show ?case
  proof (cases "a \<in> live_subscriptions s")
    case True
    then show ?thesis
      using live by (auto simp: Cons.IH unsubscribe_live unsubscribe_topic_ids removeAll_filter_not_eq
          intro!: filter_cong)
  next
    case False
    then show ?thesis
      using live by (auto simp: Cons.IH unsubscribe_live unsubscribe_topic_ids intro!: filter_cong)
  qed
qed

lemma unsubscribe_stats:
  "stats (snd (unsubscribe sid s))
     = (if sid \<in> live_subscriptions s
        then (stats s)\<lparr>totalSubscriptions := totalSubscriptions (stats s) - 1\<rparr> else stats s)"
  by (simp add: unsubscribe_def Let_def map_has_keys live_subscriptions_def)

lemma cascade_subscriptions:
  "map_of (subscriptions (fold (\<lambda>sid st. snd (unsubscribe sid st)) ids s)) x
     = (if x \<in> set ids then None else map_of (subscriptions s) x)"
  by (induction ids arbitrary: s) (auto simp: unsubscribe_subscriptions delete_conv')

lemma cascade_topic_keys:
  "map fst (subscriptionConnections (fold (\<lambda>sid st. snd (unsubscribe sid st)) ids s))
     = map fst (subscriptionConnections s)"
  by (induction ids arbitrary: s) (simp_all add: unsubscribe_topic_keys)

lemma card_Int_insert_live:
  assumes "a \<in> L" "finite L"
  shows "card (insert a A \<inter> L) = Suc (card (A \<inter> (L - {a})))"
proof -
  have "insert a A \<inter> L = insert a (A \<inter> (L - {a}))" using assms(1) by auto
  moreover have "a \<notin> A \<inter> (L - {a})" by simp
  moreover have "finite (A \<inter> (L - {a}))" using assms(2) by simp
  ultimately show ?thesis by simp
qed

lemma cascade_stats:
  "stats (fold (\<lambda>sid st. snd (unsubscribe sid st)) ids s)
     = (stats s)\<lparr>totalSubscriptions :=
          totalSubscriptions (stats s) - int (card (set ids \<inter> live_subscriptions s))\<rparr>"
proof (induction ids arbitrary: s)
  case Nil
  show ?case by simp
next
  case (Cons a ids)
  have fin: "finite (live_subscriptions s)" by (simp add: live_subscriptions_def)
  show ?case
  proof (cases "a \<in> live_subscriptions s")
    case True
    from card_Int_insert_live[OF True fin, of "set ids"] True show ?thesis
      by (simp add: Cons.IH unsubscribe_stats unsubscribe_live)
  next
    case False
    then have "insert a (set ids) \<inter> live_subscriptions s = set ids \<inter> live_subscriptions s"
      by auto
    with False show ?thesis
      by (simp add: Cons.IH unsubscribe_stats unsubscribe_live)
  qed
qed

lemma markInactiveAndCascade_connections:
  "connections (markInactiveAndCascade cid c s) = AList.update cid (c\<lparr>isActive := False\<rparr>) (connections s)"
  by (simp add: markInactiveAndCascade_def Let_def cascade_connections)

lemma markInactiveAndCascade_active:
  "activeConnections (stats (markInactiveAndCascade cid c s)) = activeConnections (stats s)"
  by (simp add: markInactiveAndCascade_def Let_def cascade_active)

lemma markInactiveAndCascade_live:
  "live_subscriptions (markInactiveAndCascade cid c s) = live_subscriptions s - set (conn_subscriptions c)"
  by (simp add: markInactiveAndCascade_def Let_def cascade_live)

lemma markInactiveAndCascade_topic_ids:
  "topic_ids (markInactiveAndCascade cid c s) t
     = filter (\<lambda>x. \<not> (x \<in> set (conn_subscriptions c) \<and> x \<in> live_subscriptions s)) (topic_ids s t)"
  by (simp add: markInactiveAndCascade_def Let_def cascade_topic_ids)

lemma closeConnection_unknown:
  "map_of (connections s) cid = None \<Longrightarrow>
   closeConnection cid s = (False, log_to Debug ''Closing connection'' s)"
  by (simp add: closeConnection_def Let_def)

lemma markInactiveAndCascade_subscriptions:
  "map_of (subscriptions (markInactiveAndCascade cid c s)) x
     = (if x \<in> set (conn_subscriptions c) then None else map_of (subscriptions s) x)"
  by (simp add: markInactiveAndCascade_def Let_def cascade_subscriptions)

lemma markInactiveAndCascade_stats:
  "stats (markInactiveAndCascade cid c s)
     = (stats s)\<lparr>totalSubscriptions :=
          totalSubscriptions (stats s) - int (card (set (conn_subscriptions c) \<inter> live_subscriptions s))\<rparr>"
  by (simp add: markInactiveAndCascade_def Let_def cascade_stats)

lemma markInactiveAndCascade_topic_keys:
  "map fst (subscriptionConnections (markInactiveAndCascade cid c s))
     = map fst (subscriptionConnections s)"
  by (simp add: markInactiveAndCascade_def Let_def cascade_topic_keys)

lemma closeConnection_known:
  assumes "map_of (connections s) cid = Some c"
  shows "fst (closeConnection cid s)"
    and "connections (snd (closeConnection cid s))
           = AList.delete cid (connections (markInactiveAndCascade cid c (log_to Debug ''Closing connection'' s)))"
    and "connections (snd (closeConnection cid s)) = AList.delete cid (connections s)"
    and "live_subscriptions (snd (closeConnection cid s)) = live_subscriptions s - set (conn_subscriptions c)"
    and "topic_ids (snd (closeConnection cid s)) t
           = filter (\<lambda>x. \<not> (x \<in> set (conn_subscriptions c) \<and> x \<in> live_subscriptions s)) (topic_ids s t)"
    and "activeConnections (stats (snd (closeConnection cid s))) = activeConnections (stats s) - 1"
    and "map_of (subscriptions (snd (closeConnection cid s))) x
           = (if x \<in> set (conn_subscriptions c) then None else map_of (subscriptions s) x)"
    and "stats (snd (closeConnection cid s))
           = (stats s)\<lparr>activeConnections := activeConnections (stats s) - 1,
                       totalSubscriptions := totalSubscriptions (stats s)
                         - int (card (set (conn_subscriptions c) \<inter> live_subscriptions s))\<rparr>"
    and "map fst (subscriptionConnections (snd (closeConnection cid s)))
           = map fst (subscriptionConnections s)"
proof -
  let ?s0 = "log_to Debug ''Closing connection'' s"
  let ?s2 = "markInactiveAndCascade cid c ?s0"
  let ?s' = "snd (closeConnection cid s)"
  from assms show "fst (closeConnection cid s)"
    by (simp add: closeConnection_def Let_def)
  from assms show c2: "connections ?s' = AList.delete cid (connections ?s2)"
    by (simp add: closeConnection_def Let_def)
  then show "connections ?s' = AList.delete cid (connections s)"
    by (simp add: markInactiveAndCascade_connections delete_update_same)
  from assms have sub: "subscriptions ?s' = subscriptions ?s2"
    by (simp add: closeConnection_def Let_def)
  then have "live_subscriptions ?s' = live_subscriptions ?s2" by (rule live_subscriptions_eq)
  then show "live_subscriptions ?s' = live_subscriptions s - set (conn_subscriptions c)"
    by (simp add: markInactiveAndCascade_live)
  from assms have top: "subscriptionConnections ?s' = subscriptionConnections ?s2"
    by (simp add: closeConnection_def Let_def)
  then have "topic_ids ?s' t = topic_ids ?s2 t" by (rule topic_ids_eq)
  then show "topic_ids ?s' t
           = filter (\<lambda>x. \<not> (x \<in> set (conn_subscriptions c) \<and> x \<in> live_subscriptions s)) (topic_ids s t)"
    by (simp add: markInactiveAndCascade_topic_ids)
  from assms show "activeConnections (stats ?s') = activeConnections (stats s) - 1"
    by (simp add: closeConnection_def Let_def markInactiveAndCascade_active)
  from sub show "map_of (subscriptions ?s') x
           = (if x \<in> set (conn_subscriptions c) then None else map_of (subscriptions s) x)"
    by (simp add: markInactiveAndCascade_subscriptions)
  from assms have "stats ?s' = (stats ?s2)\<lparr>activeConnections := activeConnections (stats ?s2) - 1\<rparr>"
    by (simp add: closeConnection_def Let_def)
  then show "stats ?s'
           = (stats s)\<lparr>activeConnections := activeConnections (stats s) - 1,
                       totalSubscriptions := totalSubscriptions (stats s)
                         - int (card (set (conn_subscriptions c) \<inter> live_subscriptions s))\<rparr>"
    by (simp add: markInactiveAndCascade_stats)
  from top show "map fst (subscriptionConnections ?s') = map fst (subscriptionConnections s)"
    by (simp add: markInactiveAndCascade_topic_keys)
qed

subsection \<open>The method in pieces\<close>

lemma closeConnection_complete_fold:
  "closeConnection_complete (Awaiting cid ids) s
     = (True, closeConnection_finish cid (fold (\<lambda>sid st. snd (unsubscribe sid st)) ids s))"
  by (induction ids arbitrary: s) simp_all

text \<open>
  The method running alone is its start followed by its resumptions with nothing running in
  between.
\<close>

lemma closeConnection_alone:
  "closeConnection cid s
     = (case closeConnection_start cid s of
          (Inl b, s') \<Rightarrow> (b, s')
        | (Inr t, s') \<Rightarrow> closeConnection_complete t s')"
proof (cases "map_of (connections s) cid")
  case None
  then show ?thesis by (simp add: closeConnection_def closeConnection_start_def Let_def)
next
  case (Some c)
  then show ?thesis
    by (cases "conn_subscriptions c")
       (simp_all add: closeConnection_def closeConnection_start_def Let_def markInactiveAndCascade_def
          closeConnection_complete_fold closeConnection_finish_def)
qed

text \<open>
  An id that a connection holds and that is no live subscription stays in a topic's set that
  contains it.
\<close>

lemma closeConnection_keeps_unknown_id:
  "map_option conn_subscriptions (getConnection ''c1'' self_named) = Some [''c1'']
   \<and> fst (closeConnection ''c1'' self_named)
   \<and> topic_ids (snd (closeConnection ''c1'' self_named)) ''orders'' = [''c1'']"
proof -
  have k: "map_of (connections self_named) ''c1''
             = Some ((example_connection ''c1'')\<lparr>conn_subscriptions := [''c1'']\<rparr>)"
    by (simp add: self_named_fields)
  have l: "live_subscriptions self_named = {}" by (simp add: live_subscriptions_def self_named_fields)
  have t: "topic_ids self_named ''orders'' = [''c1'']" by (simp add: topic_ids_def self_named_fields)
  from closeConnection_known(1)[OF k] closeConnection_known(5)[OF k, of "''orders''"] k l t
  show ?thesis by (simp add: getConnection_def)
qed

text \<open>
  Claim C5, as the code has it, for a call that runs alone (no other call runs while it is
  suspended at an \<^verbatim>\<open>await\<close>). On a known connection \<^verbatim>\<open>closeConnection\<close> returns true; the
  record is inactive in the state in which the cascade of \<^verbatim>\<open>unsubscribe\<close> calls has run,
  and it is that record that is then removed, every other record staying as it was. The ids
  the connection held are removed from the subscription table and nothing else is; in the
  statistics \<open>activeConnections\<close> goes down by one, \<open>totalSubscriptions\<close> by the number of
  held ids that were live, and no other field changes. No topic entry is deleted, and each
  topic's set loses exactly the held ids that were live subscriptions. Afterwards
  \<^verbatim>\<open>unsubscribe\<close> on any of the held ids returns false, and a close of the same id that
  starts after this one has returned returns false. On an unknown id it returns false and
  nothing but the log changes.
\<close>

theorem closeConnection_effect:
  "(map_of (connections s) cid = Some c \<longrightarrow>
      fst (closeConnection cid s)
      \<and> map_of (connections (markInactiveAndCascade cid c (log_to Debug ''Closing connection'' s))) cid
          = Some (c\<lparr>isActive := False\<rparr>)
      \<and> connections (snd (closeConnection cid s))
          = AList.delete cid (connections (markInactiveAndCascade cid c (log_to Debug ''Closing connection'' s)))
      \<and> map_of (connections (snd (closeConnection cid s))) = (map_of (connections s))(cid := None)
      \<and> (\<forall>x. map_of (subscriptions (snd (closeConnection cid s))) x
               = (if x \<in> set (conn_subscriptions c) then None else map_of (subscriptions s) x))
      \<and> stats (snd (closeConnection cid s))
          = (stats s)\<lparr>activeConnections := activeConnections (stats s) - 1,
                      totalSubscriptions := totalSubscriptions (stats s)
                        - int (card (set (conn_subscriptions c) \<inter> live_subscriptions s))\<rparr>
      \<and> map fst (subscriptionConnections (snd (closeConnection cid s)))
          = map fst (subscriptionConnections s)
      \<and> (\<forall>t. topic_ids (snd (closeConnection cid s)) t
               = filter (\<lambda>x. \<not> (x \<in> set (conn_subscriptions c) \<and> x \<in> live_subscriptions s))
                   (topic_ids s t))
      \<and> (\<forall>sid \<in> set (conn_subscriptions c).
            sid \<notin> live_subscriptions (snd (closeConnection cid s))
            \<and> \<not> fst (unsubscribe sid (snd (closeConnection cid s))))
      \<and> \<not> fst (closeConnection cid (snd (closeConnection cid s))))
   \<and> (map_of (connections s) cid = None \<longrightarrow>
        \<not> fst (closeConnection cid s)
        \<and> connections (snd (closeConnection cid s)) = connections s
        \<and> subscriptions (snd (closeConnection cid s)) = subscriptions s
        \<and> subscriptionConnections (snd (closeConnection cid s)) = subscriptionConnections s
        \<and> stats (snd (closeConnection cid s)) = stats s)"
proof (intro conjI impI)
  assume k: "map_of (connections s) cid = Some c"
  let ?s' = "snd (closeConnection cid s)"
  note kn = closeConnection_known[OF k]
  show "fst (closeConnection cid s)" by (rule kn(1))
  show "map_of (connections (markInactiveAndCascade cid c (log_to Debug ''Closing connection'' s))) cid
          = Some (c\<lparr>isActive := False\<rparr>)"
    by (simp add: markInactiveAndCascade_connections update_conv')
  show "connections ?s'
          = AList.delete cid (connections (markInactiveAndCascade cid c (log_to Debug ''Closing connection'' s)))"
    by (rule kn(2))
  show gone: "map_of (connections ?s') = (map_of (connections s))(cid := None)"
    by (simp add: kn(3) delete_conv')
  show "\<forall>x. map_of (subscriptions ?s') x
               = (if x \<in> set (conn_subscriptions c) then None else map_of (subscriptions s) x)"
    by (simp add: kn(7))
  show "stats ?s'
          = (stats s)\<lparr>activeConnections := activeConnections (stats s) - 1,
                      totalSubscriptions := totalSubscriptions (stats s)
                        - int (card (set (conn_subscriptions c) \<inter> live_subscriptions s))\<rparr>"
    by (rule kn(8))
  show "map fst (subscriptionConnections ?s') = map fst (subscriptionConnections s)"
    by (rule kn(9))
  show "\<forall>t. topic_ids ?s' t
               = filter (\<lambda>x. \<not> (x \<in> set (conn_subscriptions c) \<and> x \<in> live_subscriptions s))
                   (topic_ids s t)"
    by (simp add: kn(5))
  show "\<forall>sid \<in> set (conn_subscriptions c).
            sid \<notin> live_subscriptions ?s' \<and> \<not> fst (unsubscribe sid ?s')"
    by (simp add: kn(4) unsubscribe_result map_has_keys live_subscriptions_def[symmetric])
  from gone have "map_of (connections ?s') cid = None" by simp
  then show "\<not> fst (closeConnection cid ?s')" by (simp add: closeConnection_unknown)
next
  assume u: "map_of (connections s) cid = None"
  note un = closeConnection_unknown[OF u]
  show "\<not> fst (closeConnection cid s)" by (simp add: un)
  show "connections (snd (closeConnection cid s)) = connections s" by (simp add: un)
  show "subscriptions (snd (closeConnection cid s)) = subscriptions s" by (simp add: un)
  show "subscriptionConnections (snd (closeConnection cid s)) = subscriptionConnections s" by (simp add: un)
  show "stats (snd (closeConnection cid s)) = stats s" by (simp add: un)
qed

text \<open>Claim C5 amended, on the connection of the state with one linked subscription and on an unknown id.\<close>

theorem closeConnection_effect_witness:
  "map_of (connections linked_subscription) ''c1''
     = Some ((example_connection ''c1'')\<lparr>conn_subscriptions := [''a0'']\<rparr>)
   \<and> map_of (connections linked_subscription) ''c9'' = None
   \<and> fst (closeConnection ''c1'' linked_subscription)
   \<and> map_of (connections (snd (closeConnection ''c1'' linked_subscription))) ''c1'' = None
   \<and> map_of (subscriptions (snd (closeConnection ''c1'' linked_subscription))) ''a0'' = None
   \<and> activeConnections (stats (snd (closeConnection ''c1'' linked_subscription))) = 0
   \<and> totalSubscriptions (stats (snd (closeConnection ''c1'' linked_subscription))) = 0
   \<and> topic_ids (snd (closeConnection ''c1'' linked_subscription)) ''orders'' = [''c1'']
   \<and> ''a0'' \<notin> live_subscriptions (snd (closeConnection ''c1'' linked_subscription))
   \<and> \<not> fst (unsubscribe ''a0'' (snd (closeConnection ''c1'' linked_subscription)))
   \<and> \<not> fst (closeConnection ''c1'' (snd (closeConnection ''c1'' linked_subscription)))
   \<and> \<not> fst (closeConnection ''c9'' linked_subscription)
   \<and> stats (snd (closeConnection ''c9'' linked_subscription)) = stats linked_subscription"
proof -
  have h1: "map_of (connections linked_subscription) ''c1''
     = Some ((example_connection ''c1'')\<lparr>conn_subscriptions := [''a0'']\<rparr>)"
    by (simp add: linked_subscription_fields)
  have h2: "map_of (connections linked_subscription) ''c9'' = None"
    by (simp add: linked_subscription_fields)
  have l: "live_subscriptions linked_subscription = {''a0''}"
    by (simp add: live_subscriptions_def linked_subscription_fields)
  have t: "topic_ids linked_subscription ''orders'' = [''c1'']"
    by (simp add: topic_ids_def linked_subscription_fields)
  from h1 h2 l t
    closeConnection_effect[of linked_subscription "''c1''"
      "(example_connection ''c1'')\<lparr>conn_subscriptions := [''a0'']\<rparr>"]
    closeConnection_effect[of linked_subscription "''c9''" "example_connection ''c9''"]
  show ?thesis by (simp add: linked_subscription_fields delete_conv')
qed

text \<open>
  Claim C5 as stated fails: a second \<^verbatim>\<open>closeConnection('c1')\<close> that starts while the first
  is suspended at the \<^verbatim>\<open>await\<close> of its cascade finds the record still in the map. Both
  calls return true, and the gauge, 1 at the start, is decremented twice.
\<close>

theorem overlapping_closes_both_return_true:
  "fst first_close_started = Inr (Awaiting ''c1'' [])
   \<and> fst second_close_started = Inr (Awaiting ''c1'' [])
   \<and> fst first_close_resumed = Inl True
   \<and> fst second_close_resumed = Inl True
   \<and> activeConnections (stats linked_subscription) = 1
   \<and> activeConnections (stats (snd second_close_resumed)) = - 1"
  by (simp add: first_close_started_def second_close_started_def first_close_resumed_def
      second_close_resumed_def closeConnection_start_def closeConnection_finish_def Let_def
      linked_subscription_fields unsubscribe_def map_has_def AList.map_ran_def
      example_connection_def)

section \<open>Fan-out\<close>

lemma publishToConnection_Inl:
  "publishToConnection now cid topic p s = Inl e \<Longrightarrow> \<not> deliverable s cid"
  by (auto simp: publishToConnection_def deliverable_def split: option.splits if_splits)

lemma publishToConnection_fails:
  "\<not> deliverable s cid \<Longrightarrow>
   publishToConnection now cid topic p s = Inl (JsError (''Connection '' @ cid @ '' is not active''))"
  by (auto simp: publishToConnection_def deliverable_def split: option.splits)

lemma publishToConnection_Inr:
  assumes "publishToConnection now cid topic p s = Inr s1"
  shows "deliverable s cid"
    and "map_of (connections s1) x
           = (if x = cid then map_option (\<lambda>c. c\<lparr>lastActivity := now\<rparr>) (map_of (connections s) x)
              else map_of (connections s) x)"
    and "subscriptions s1 = subscriptions s"
    and "subscriptionConnections s1 = subscriptionConnections s"
    and "stats s1 = stats s"
    and "logger s1 = logger s @ [(Debug, ''Published to connection'')]"
  using assms
  by (auto simp: publishToConnection_def deliverable_def update_conv' split: option.splits if_splits)

lemma publishToConnection_Inr_active:
  assumes "publishToConnection now cid topic p s = Inr s1"
  shows "map_option isActive (map_of (connections s1) x) = map_option isActive (map_of (connections s) x)"
  using assms
  by (auto simp: publishToConnection_def update_conv' split: option.splits if_splits)

lemma publishToConnection_Inr_deliverable:
  assumes "publishToConnection now cid topic p s = Inr s1"
  shows "deliverable s1 x = deliverable s x"
  using publishToConnection_Inr_active[OF assms, of x]
  by (auto simp: deliverable_def split: option.splits)

subsection \<open>The loop of publish\<close>

lemma deliver_frame:
  "subscriptions (snd (deliver clock i topic p ids s)) = subscriptions s
   \<and> subscriptionConnections (snd (deliver clock i topic p ids s)) = subscriptionConnections s
   \<and> stats (snd (deliver clock i topic p ids s)) = stats s"
proof (induction ids arbitrary: i s)
  case Nil
  show ?case by simp
next
  case (Cons cid rest)
  show ?case
  proof (cases "publishToConnection (clock i) cid topic p s")
    case (Inl e)
    with Cons.IH[of "Suc i" s] show ?thesis by (simp add: split_beta)
  next
    case (Inr s1)
    with Cons.IH[of "Suc i" s1] publishToConnection_Inr(3-5)[OF Inr] show ?thesis
      by (simp add: split_beta)
  qed
qed

lemma deliver_outcomes:
  "fst (deliver clock i topic p ids s) = map (deliverable s) ids"
proof (induction ids arbitrary: i s)
  case Nil
  show ?case by simp
next
  case (Cons cid rest)
  show ?case
  proof (cases "publishToConnection (clock i) cid topic p s")
    case (Inl e)
    with Cons.IH[of "Suc i" s] publishToConnection_Inl[OF Inl] show ?thesis
      by (simp add: split_beta)
  next
    case (Inr s1)
    have "map (deliverable s1) rest = map (deliverable s) rest"
      by (simp add: publishToConnection_Inr_deliverable[OF Inr])
    with Cons.IH[of "Suc i" s1] publishToConnection_Inr(1)[OF Inr] Inr show ?thesis
      by (simp add: split_beta)
  qed
qed

lemma deliver_connections:
  "distinct ids \<Longrightarrow>
   map_of (connections (snd (deliver clock i topic p ids s))) x
     = map_option (\<lambda>c. if x \<in> set ids \<and> isActive c
                        then c\<lparr>lastActivity := clock (i + index_of x ids)\<rparr> else c)
         (map_of (connections s) x)"
proof (induction ids arbitrary: i s)
  case Nil
  show ?case by (simp add: option.map_ident)
next
  case (Cons cid rest)
  from Cons.prems have d: "distinct rest" and n: "cid \<notin> set rest" by simp_all
  show ?case
  proof (cases "publishToConnection (clock i) cid topic p s")
    case (Inl e)
    from publishToConnection_Inl[OF Inl] have nd: "\<not> deliverable s cid" .
    from Cons.IH[OF d, of "Suc i" s] Inl nd show ?thesis
      by (cases "map_of (connections s) x") (auto simp: deliverable_def split: prod.splits)
  next
    case (Inr s1)
    from publishToConnection_Inr(1)[OF Inr] have dl: "deliverable s cid" .
    from Cons.IH[OF d, of "Suc i" s1] Inr dl n publishToConnection_Inr(2)[OF Inr, of x] show ?thesis
      by (cases "map_of (connections s) x") (auto simp: deliverable_def split: prod.splits)
  qed
qed

lemma settle_fields [simp]:
  "fst (settle msg outcomes s) = length (filter (\<lambda>ok. ok) outcomes)"
  "subscriptions (snd (settle msg outcomes s)) = subscriptions s"
  "connections (snd (settle msg outcomes s)) = connections s"
  "subscriptionConnections (snd (settle msg outcomes s)) = subscriptionConnections s"
  "stats (snd (settle msg outcomes s)) = stats s"
  by (simp_all add: settle_def)

lemma publish_result:
  "\<exists>s'. publish clock topic p s = Inr (length (filter (deliverable s) (topic_ids s topic)), s')
      \<and> connections s' = connections (snd (deliver clock 0 topic p (topic_ids s topic)
                                             (log_to Debug ''Publishing to topic'' s)))
      \<and> subscriptions s' = subscriptions s
      \<and> subscriptionConnections s' = subscriptionConnections s
      \<and> stats s' = (stats s)\<lparr>messagesSent := messagesSent (stats s)
                       + int (length (filter (deliverable s) (topic_ids s topic)))\<rparr>"
proof -
  let ?s0 = "log_to Debug ''Publishing to topic'' s"
  have d0: "deliverable ?s0 = deliverable s" by (rule ext) (simp add: deliverable_def)
  show ?thesis
  proof (cases "topic_ids s topic = []")
    case True
    then show ?thesis
      by (auto simp: publish_def Let_def topic_ids_def split: option.splits)
  next
    case False
    then obtain ids where ids: "map_of (subscriptionConnections s) topic = Some ids" "ids \<noteq> []"
      "topic_ids s topic = ids"
      by (auto simp: topic_ids_def split: option.splits)
    show ?thesis
      using ids deliver_frame[of clock 0 topic p ids ?s0] deliver_outcomes[of clock 0 topic p ids ?s0]
      by (simp add: publish_def Let_def split_beta d0 comp_def)
  qed
qed

subsection \<open>The loop of publishToSubscribers\<close>

lemma reached_Nil [simp]: "reached flt p s [] = []"
  by (simp add: reached_def)

lemma reached_Cons:
  "reached flt p s (cid # rest)
     = (if throws_nullish flt p s cid then [] else cid # reached flt p s rest)"
  by (simp add: reached_def)

lemma reached_subset: "set (reached flt p s ids) \<subseteq> set ids"
  by (auto simp: reached_def dest: set_takeWhileD)

lemma reached_all:
  "(reached flt p s ids = ids) = (\<forall>x \<in> set ids. \<not> throws_nullish flt p s x)"
  by (simp add: reached_def takeWhile_eq_all_conv)

lemma reached_agree:
  assumes "\<And>x. x \<in> set ids \<Longrightarrow> map_of (connections s1) x = map_of (connections s) x"
  shows "reached flt p s1 ids = reached flt p s ids"
  unfolding reached_def using assms
  by (intro takeWhile_cong) (simp_all add: throws_nullish_def)

lemma deliverFiltered_step:
  obtains
    (aborted)
      "deliverFiltered clock i topic p flt (cid # rest) s = (Some JsTypeError, [], s)"
      "throws_nullish flt p s cid"
  | (skip) s1 where
      "deliverFiltered clock i topic p flt (cid # rest) s = deliverFiltered clock (Suc i) topic p flt rest s1"
      "connections s1 = connections s" "subscriptions s1 = subscriptions s"
      "subscriptionConnections s1 = subscriptionConnections s" "stats s1 = stats s"
      "\<not> passes flt p s cid" "\<not> throws_nullish flt p s cid"
      "filter_warnings s1 = filter_warnings s + (if filter_throws flt p s cid then 1 else 0)"
  | (rejected)
      "deliverFiltered clock i topic p flt (cid # rest) s
         = (fst (deliverFiltered clock (Suc i) topic p flt rest s),
            False # fst (snd (deliverFiltered clock (Suc i) topic p flt rest s)),
            snd (snd (deliverFiltered clock (Suc i) topic p flt rest s)))"
      "passes flt p s cid" "\<not> deliverable s cid" "\<not> filter_throws flt p s cid"
      "\<not> throws_nullish flt p s cid"
  | (fulfilled) s1 where
      "deliverFiltered clock i topic p flt (cid # rest) s
         = (fst (deliverFiltered clock (Suc i) topic p flt rest s1),
            True # fst (snd (deliverFiltered clock (Suc i) topic p flt rest s1)),
            snd (snd (deliverFiltered clock (Suc i) topic p flt rest s1)))"
      "publishToConnection (clock i) cid topic p s = Inr s1"
      "passes flt p s cid" "deliverable s cid" "\<not> filter_throws flt p s cid"
      "\<not> throws_nullish flt p s cid"
proof (cases "map_of (connections s) cid")
  case None
  then show ?thesis
    by (intro skip[of s]) (simp_all add: passes_def filter_throws_def throws_nullish_def)
next
  case (Some c)
  show ?thesis
  proof (cases "flt p [] c")
    case (Inl t)
    show ?thesis
    proof (cases t)
      case ThrownNullish
      with Some Inl show ?thesis
        by (intro aborted) (simp_all add: throws_nullish_def)
    next
      case (ThrownValue m)
      with Some Inl show ?thesis
        by (intro skip[of "log_to Warn ''Subscription filter error'' s"])
           (simp_all add: passes_def filter_throws_def throws_nullish_def filter_warnings_def)
    qed
  next
    case (Inr b)
    show ?thesis
    proof (cases b)
      case False
      with Some Inr show ?thesis
        by (intro skip[of s]) (simp_all add: passes_def filter_throws_def throws_nullish_def)
    next
      case True
      show ?thesis
      proof (cases "publishToConnection (clock i) cid topic p s")
        case (Inl e)
        from publishToConnection_Inl[OF Inl] Some Inr True Inl show ?thesis
          by (intro rejected)
             (simp_all add: passes_def filter_throws_def throws_nullish_def split_beta)
      next
        case r: (Inr s1)
        from publishToConnection_Inr(1)[OF r] Some Inr True r show ?thesis
          by (intro fulfilled[of s1])
             (simp_all add: passes_def filter_throws_def throws_nullish_def split_beta)
      qed
    qed
  qed
qed

lemma deliverFiltered_frame:
  "subscriptions (snd (snd (deliverFiltered clock i topic p flt ids s))) = subscriptions s
   \<and> subscriptionConnections (snd (snd (deliverFiltered clock i topic p flt ids s))) = subscriptionConnections s
   \<and> stats (snd (snd (deliverFiltered clock i topic p flt ids s))) = stats s"
proof (induction ids arbitrary: i s)
  case Nil
  show ?case by simp
next
  case (Cons cid rest)
  show ?case
  proof (cases rule: deliverFiltered_step[of clock i topic p flt cid rest s])
    case aborted
    then show ?thesis by simp
  next
    case (skip s1)
    with Cons.IH[of "Suc i" s1] show ?thesis by simp
  next
    case rejected
    with Cons.IH[of "Suc i" s] show ?thesis by simp
  next
    case (fulfilled s1)
    with Cons.IH[of "Suc i" s1] publishToConnection_Inr(3-5)[OF fulfilled(2)] show ?thesis by simp
  qed
qed

lemma deliverFiltered_error:
  "distinct ids \<Longrightarrow>
   fst (deliverFiltered clock i topic p flt ids s)
     = (if reached flt p s ids = ids then None else Some JsTypeError)"
proof (induction ids arbitrary: i s)
  case Nil
  show ?case by simp
next
  case (Cons cid rest)
  from Cons.prems have d: "distinct rest" and n: "cid \<notin> set rest" by simp_all
  show ?case
  proof (cases rule: deliverFiltered_step[of clock i topic p flt cid rest s])
    case aborted
    then show ?thesis by (simp add: reached_Cons)
  next
    case (skip s1)
    have "reached flt p s1 rest = reached flt p s rest"
      using skip(2) by (intro reached_agree) simp
    with Cons.IH[OF d, of "Suc i" s1] skip show ?thesis by (simp add: reached_Cons)
  next
    case rejected
    with Cons.IH[OF d, of "Suc i" s] show ?thesis by (simp add: reached_Cons)
  next
    case (fulfilled s1)
    have "reached flt p s1 rest = reached flt p s rest"
      using n publishToConnection_Inr(2)[OF fulfilled(2)] by (intro reached_agree) auto
    with Cons.IH[OF d, of "Suc i" s1] fulfilled show ?thesis by (simp add: reached_Cons)
  qed
qed

lemma deliverFiltered_count:
  "distinct ids \<Longrightarrow>
   length (filter (\<lambda>ok. ok) (fst (snd (deliverFiltered clock i topic p flt ids s))))
     = length (filter (\<lambda>x. passes flt p s x \<and> deliverable s x) (reached flt p s ids))"
proof (induction ids arbitrary: i s)
  case Nil
  show ?case by simp
next
  case (Cons cid rest)
  from Cons.prems have d: "distinct rest" and n: "cid \<notin> set rest" by simp_all
  show ?case
  proof (cases rule: deliverFiltered_step[of clock i topic p flt cid rest s])
    case aborted
    then show ?thesis by (simp add: reached_Cons)
  next
    case (skip s1)
    have r: "reached flt p s1 rest = reached flt p s rest"
      using skip(2) by (intro reached_agree) simp
    have "filter (\<lambda>x. passes flt p s1 x \<and> deliverable s1 x) (reached flt p s rest)
            = filter (\<lambda>x. passes flt p s x \<and> deliverable s x) (reached flt p s rest)"
      using skip(2) by (simp add: passes_def deliverable_def)
    with Cons.IH[OF d, of "Suc i" s1] skip r show ?thesis by (simp add: reached_Cons)
  next
    case rejected
    with Cons.IH[OF d, of "Suc i" s] show ?thesis by (simp add: reached_Cons)
  next
    case (fulfilled s1)
    have r: "reached flt p s1 rest = reached flt p s rest"
      using n publishToConnection_Inr(2)[OF fulfilled(2)] by (intro reached_agree) auto
    have "filter (\<lambda>x. passes flt p s1 x \<and> deliverable s1 x) (reached flt p s rest)
            = filter (\<lambda>x. passes flt p s x \<and> deliverable s x) (reached flt p s rest)"
      using n publishToConnection_Inr(2)[OF fulfilled(2)] reached_subset[of flt p s rest]
      by (intro filter_cong) (auto simp: passes_def deliverable_def)
    with Cons.IH[OF d, of "Suc i" s1] fulfilled r show ?thesis by (simp add: reached_Cons)
  qed
qed

lemma deliverFiltered_warnings:
  "distinct ids \<Longrightarrow>
   filter_warnings (snd (snd (deliverFiltered clock i topic p flt ids s)))
     = filter_warnings s + length (filter (filter_throws flt p s) (reached flt p s ids))"
proof (induction ids arbitrary: i s)
  case Nil
  show ?case by simp
next
  case (Cons cid rest)
  from Cons.prems have d: "distinct rest" and n: "cid \<notin> set rest" by simp_all
  show ?case
  proof (cases rule: deliverFiltered_step[of clock i topic p flt cid rest s])
    case aborted
    then show ?thesis by (simp add: reached_Cons)
  next
    case (skip s1)
    have r: "reached flt p s1 rest = reached flt p s rest"
      using skip(2) by (intro reached_agree) simp
    have "filter (filter_throws flt p s1) (reached flt p s rest)
            = filter (filter_throws flt p s) (reached flt p s rest)"
      using skip(2) by (intro filter_cong) (simp_all add: filter_throws_def)
    with Cons.IH[OF d, of "Suc i" s1] skip r show ?thesis by (simp add: reached_Cons)
  next
    case rejected
    with Cons.IH[OF d, of "Suc i" s] show ?thesis by (simp add: reached_Cons)
  next
    case (fulfilled s1)
    have r: "reached flt p s1 rest = reached flt p s rest"
      using n publishToConnection_Inr(2)[OF fulfilled(2)] by (intro reached_agree) auto
    have "filter (filter_throws flt p s1) (reached flt p s rest)
            = filter (filter_throws flt p s) (reached flt p s rest)"
      using n publishToConnection_Inr(2)[OF fulfilled(2)] reached_subset[of flt p s rest]
      by (intro filter_cong) (auto simp: filter_throws_def)
    moreover have "filter_warnings s1 = filter_warnings s"
      using publishToConnection_Inr(6)[OF fulfilled(2)] by (simp add: filter_warnings_def)
    ultimately show ?thesis
      using Cons.IH[OF d, of "Suc i" s1] fulfilled r by (simp add: reached_Cons)
  qed
qed

lemma deliverFiltered_connections:
  "distinct ids \<Longrightarrow>
   map_of (connections (snd (snd (deliverFiltered clock i topic p flt ids s)))) x
     = map_option (\<lambda>c. if x \<in> set (reached flt p s ids) \<and> flt p [] c = Inr True \<and> isActive c
                        then c\<lparr>lastActivity := clock (i + index_of x ids)\<rparr> else c)
         (map_of (connections s) x)"
proof (induction ids arbitrary: i s)
  case Nil
  show ?case by (simp add: option.map_ident)
next
  case (Cons cid rest)
  from Cons.prems have d: "distinct rest" and n: "cid \<notin> set rest" by simp_all
  have nr: "cid \<notin> set (reached flt p st rest)" for st :: "'a manager"
    using n reached_subset[of flt p st rest] by blast
  show ?case
  proof (cases rule: deliverFiltered_step[of clock i topic p flt cid rest s])
    case aborted
    then show ?thesis by (simp add: reached_Cons option.map_ident)
  next
    case (skip s1)
    have r: "reached flt p s1 rest = reached flt p s rest"
      using skip(2) by (intro reached_agree) simp
    from skip Cons.IH[OF d, of "Suc i" s1] r nr[of s] show ?thesis
      by (cases "map_of (connections s) x") (auto simp: passes_def reached_Cons)
  next
    case rejected
    with Cons.IH[OF d, of "Suc i" s] nr[of s] show ?thesis
      by (cases "map_of (connections s) x") (auto simp: deliverable_def reached_Cons)
  next
    case (fulfilled s1)
    have r: "reached flt p s1 rest = reached flt p s rest"
      using n publishToConnection_Inr(2)[OF fulfilled(2)] by (intro reached_agree) auto
    from fulfilled Cons.IH[OF d, of "Suc i" s1] r n nr[of s]
      publishToConnection_Inr(2)[OF fulfilled(2), of x] show ?thesis
      by (cases "map_of (connections s) x") (auto simp: passes_def deliverable_def reached_Cons)
  qed
qed

lemma settle_filter_warnings:
  "msg \<noteq> ''Subscription filter error'' \<Longrightarrow> filter_warnings (snd (settle msg outcomes s)) = filter_warnings s"
  by (simp add: settle_def filter_warnings_def filter_empty_conv)

lemma publishToSubscribers_result:
  assumes "distinct (topic_ids s topic)"
  shows "fst (publishToSubscribers clock topic p flt s)
          = (if reached flt p s (topic_ids s topic) = topic_ids s topic
             then Inr (length (filter (\<lambda>x. passes flt p s x \<and> deliverable s x) (topic_ids s topic)))
             else Inl JsTypeError)"
    and "connections (snd (publishToSubscribers clock topic p flt s))
          = connections (snd (snd (deliverFiltered clock 0 topic p flt (topic_ids s topic)
                                     (log_to Debug ''Publishing to filtered subscribers'' s))))"
    and "subscriptions (snd (publishToSubscribers clock topic p flt s)) = subscriptions s"
    and "subscriptionConnections (snd (publishToSubscribers clock topic p flt s)) = subscriptionConnections s"
    and "stats (snd (publishToSubscribers clock topic p flt s))
          = (if reached flt p s (topic_ids s topic) = topic_ids s topic
             then (stats s)\<lparr>messagesSent := messagesSent (stats s)
                    + int (length (filter (\<lambda>x. passes flt p s x \<and> deliverable s x) (topic_ids s topic)))\<rparr>
             else stats s)"
    and "filter_warnings (snd (publishToSubscribers clock topic p flt s))
          = filter_warnings s
            + length (filter (filter_throws flt p s) (reached flt p s (topic_ids s topic)))"
proof -
  let ?s0 = "log_to Debug ''Publishing to filtered subscribers'' s"
  let ?ids = "topic_ids s topic"
  let ?R = "deliverFiltered clock 0 topic p flt ?ids ?s0"
  let ?n = "length (filter (\<lambda>x. passes flt p s x \<and> deliverable s x) ?ids)"
  have d0: "deliverable ?s0 = deliverable s" by (rule ext) (simp add: deliverable_def)
  have p0: "passes flt p ?s0 = passes flt p s" by (rule ext) (simp add: passes_def)
  have t0: "filter_throws flt p ?s0 = filter_throws flt p s" by (rule ext) (simp add: filter_throws_def)
  have r0: "reached flt p ?s0 ?ids = reached flt p s ?ids" by (intro reached_agree) simp
  have w0: "filter_warnings ?s0 = filter_warnings s" by (simp add: filter_warnings_def)
  have w: "filter_warnings (log_to l m st) = filter_warnings st"
    if "(l, m) \<noteq> (Warn, ''Subscription filter error'')" for st :: "'a manager" and l m
    using that by (auto simp: filter_warnings_def)
  have w2: "filter_warnings (st\<lparr>stats := x\<rparr>) = filter_warnings st" for st :: "'a manager" and x
    by (simp add: filter_warnings_def)
  note fr = deliverFiltered_frame[of clock 0 topic p flt ?ids ?s0]
  note er = deliverFiltered_error[OF assms, of clock 0 topic p flt ?s0]
  note ct = deliverFiltered_count[OF assms, of clock 0 topic p flt ?s0]
  note wr = deliverFiltered_warnings[OF assms, of clock 0 topic p flt ?s0]
  have unfold: "publishToSubscribers clock topic p flt s
      = (if ?ids = [] then (Inr 0, ?s0)
         else case fst ?R of
                Some e \<Rightarrow> (Inl e, snd (settle ''Failed to publish to filtered connection'' (fst (snd ?R))
                                     (log_to Err ''Failed to publish to filtered subscribers'' (snd (snd ?R)))))
              | None \<Rightarrow>
                  (Inr (length (filter (\<lambda>ok. ok) (fst (snd ?R)))),
                   log_to Info ''Published to filtered subscribers''
                     ((snd (settle ''Failed to publish to filtered connection'' (fst (snd ?R)) (snd (snd ?R))))
                        \<lparr>stats := (stats (snd (snd ?R)))
                           \<lparr>messagesSent := messagesSent (stats (snd (snd ?R)))
                                + int (length (filter (\<lambda>ok. ok) (fst (snd ?R))))\<rparr>\<rparr>)))"
    by (cases ?R; cases "fst ?R")
       (auto simp: publishToSubscribers_def Let_def topic_ids_def split_beta split: option.splits)
  show "fst (publishToSubscribers clock topic p flt s)
          = (if reached flt p s ?ids = ?ids then Inr ?n else Inl JsTypeError)"
    using er ct by (auto simp: unfold r0 p0 d0 split: option.splits)
  show "connections (snd (publishToSubscribers clock topic p flt s)) = connections (snd (snd ?R))"
    by (auto simp: unfold split: option.splits)
  show "subscriptions (snd (publishToSubscribers clock topic p flt s)) = subscriptions s"
    using fr by (auto simp: unfold split: option.splits)
  show "subscriptionConnections (snd (publishToSubscribers clock topic p flt s)) = subscriptionConnections s"
    using fr by (auto simp: unfold split: option.splits)
  show "stats (snd (publishToSubscribers clock topic p flt s))
          = (if reached flt p s ?ids = ?ids
             then (stats s)\<lparr>messagesSent := messagesSent (stats s) + int ?n\<rparr> else stats s)"
    using fr er ct by (auto simp: unfold r0 p0 d0 split: option.splits)
  show "filter_warnings (snd (publishToSubscribers clock topic p flt s))
          = filter_warnings s + length (filter (filter_throws flt p s) (reached flt p s ?ids))"
    using wr by (auto simp: unfold r0 t0 w0 w w2 settle_filter_warnings split: option.splits)
qed

subsection \<open>Fan-out from position 0\<close>

lemma deliver_connections0:
  "distinct ids \<Longrightarrow>
   map_of (connections (snd (deliver clock 0 topic p ids s))) x
     = map_option (\<lambda>c. if x \<in> set ids \<and> isActive c
                        then c\<lparr>lastActivity := clock (index_of x ids)\<rparr> else c)
         (map_of (connections s) x)"
  using deliver_connections[of ids clock 0 topic p s x] by (simp only: add_0)

lemma deliverFiltered_connections0:
  "distinct ids \<Longrightarrow>
   map_of (connections (snd (snd (deliverFiltered clock 0 topic p flt ids s)))) x
     = map_option (\<lambda>c. if x \<in> set (reached flt p s ids) \<and> flt p [] c = Inr True \<and> isActive c
                        then c\<lparr>lastActivity := clock (index_of x ids)\<rparr> else c)
         (map_of (connections s) x)"
  using deliverFiltered_connections[of ids clock 0 topic p flt s x] by (simp only: add_0)

lemma publishToSubscribers_connections:
  assumes "distinct (topic_ids s topic)"
  shows "map_of (connections (snd (publishToSubscribers clock topic p flt s))) x
     = map_option (\<lambda>c. if x \<in> set (reached flt p s (topic_ids s topic))
                           \<and> flt p [] c = Inr True \<and> isActive c
                        then c\<lparr>lastActivity := clock (index_of x (topic_ids s topic))\<rparr> else c)
         (map_of (connections s) x)"
proof -
  have r0: "reached flt p (log_to Debug ''Publishing to filtered subscribers'' s) (topic_ids s topic)
              = reached flt p s (topic_ids s topic)"
    by (intro reached_agree) simp
  show ?thesis
    using deliverFiltered_connections0[OF assms, of clock topic p flt
        "log_to Debug ''Publishing to filtered subscribers'' s" x]
    by (simp add: publishToSubscribers_result(2)[OF assms] r0)
qed

subsection \<open>More scenario states, evaluated\<close>

lemma three_connections_fields:
  "connections three_connections
     = [(''c1'', (example_connection ''c1'')\<lparr>conn_subscriptions := [''a0'']\<rparr>),
        (''c2'', (example_connection ''c2'')\<lparr>conn_subscriptions := [''b0'']\<rparr>),
        (''c3'', (example_connection ''c3'')\<lparr>conn_subscriptions := [''c0'']\<rparr>)]"
  "subscriptionConnections three_connections = [(''orders'', [''c1'', ''c2'', ''c3''])]"
  "map fst (subscriptions three_connections) = [''a0'', ''b0'', ''c0'']"
  by (simp_all add: three_connections_def addSubscriptionToConnection_def subscribe_def
      registerConnection_def init_def Let_def generateId_def toString36_0 example_connection_def
      map_has_def set_add_def)

lemma one_connection_three_subscriptions_fields:
  "connections one_connection_three_subscriptions
     = [(''c1'', (example_connection ''c1'')\<lparr>conn_subscriptions := [''a0'', ''b0'', ''c0'']\<rparr>)]"
  "subscriptionConnections one_connection_three_subscriptions = [(''orders'', [''c1''])]"
  "subscriptions one_connection_three_subscriptions
     = [(''a0'', plain_resolver), (''b0'', plain_resolver), (''c0'', plain_resolver)]"
  by (simp_all add: one_connection_three_subscriptions_def addSubscriptionToConnection_def subscribe_def
      registerConnection_def init_def Let_def generateId_def toString36_0 example_connection_def
      map_has_def set_add_def)

lemma after_close_fields:
  "map_of (connections after_close) ''c1'' = Some ((example_connection ''c1'')\<lparr>conn_subscriptions := [''a0'']\<rparr>)"
  "map_of (connections after_close) ''c2'' = None"
  "map_of (connections after_close) ''c3'' = Some ((example_connection ''c3'')\<lparr>conn_subscriptions := [''c0'']\<rparr>)"
  "topic_ids after_close ''orders'' = [''c1'', ''c2'', ''c3'']"
proof -
  have k: "map_of (connections three_connections) ''c2''
             = Some ((example_connection ''c2'')\<lparr>conn_subscriptions := [''b0'']\<rparr>)"
    by (simp add: three_connections_fields)
  have c: "connections after_close = AList.delete ''c2'' (connections three_connections)"
    unfolding after_close_def by (rule closeConnection_known(3)[OF k])
  show "map_of (connections after_close) ''c1'' = Some ((example_connection ''c1'')\<lparr>conn_subscriptions := [''a0'']\<rparr>)"
    "map_of (connections after_close) ''c2'' = None"
    "map_of (connections after_close) ''c3'' = Some ((example_connection ''c3'')\<lparr>conn_subscriptions := [''c0'']\<rparr>)"
    by (simp_all add: c three_connections_fields AList.delete_eq)
  have t: "topic_ids three_connections ''orders'' = [''c1'', ''c2'', ''c3'']"
    by (simp add: topic_ids_def three_connections_fields)
  show "topic_ids after_close ''orders'' = [''c1'', ''c2'', ''c3'']"
    unfolding after_close_def
    by (simp add: closeConnection_known(5)[OF k] t)
qed

lemma three_connections_deliverable:
  "deliverable three_connections ''c1''" "deliverable three_connections ''c2''"
  "deliverable three_connections ''c3''"
  by (simp_all add: deliverable_def three_connections_fields example_connection_def)

lemma linked_subscription_topic: "topic_ids linked_subscription ''orders'' = [''c1'']"
  by (simp add: topic_ids_def linked_subscription_fields)

section \<open>What \<^verbatim>\<open>publish\<close> returns\<close>

text \<open>
  Claim C3, as the code has it: the topic's set holds connection ids, and \<^verbatim>\<open>publish\<close>
  delivers once to each of them without consulting any resolver's filter. The returned count
  is the number of ids of the topic's set that are registered and active, and
  \<open>messagesSent\<close> grows by it. When the set of the topic holds exactly three distinct ids,
  all registered and active, \<^verbatim>\<open>publish\<close> returns 3 and each of the three connections has
  received the delivery: its \<open>lastActivity\<close> is the time of its delivery.
\<close>

theorem publish_counts_connections:
  "(\<exists>s'. publish clock topic p s = Inr (length (filter (deliverable s) (topic_ids s topic)), s')
        \<and> messagesSent (stats s')
            = messagesSent (stats s) + int (length (filter (deliverable s) (topic_ids s topic))))
   \<and> (topic_ids s topic = [a, b, c] \<and> distinct [a, b, c]
        \<and> deliverable s a \<and> deliverable s b \<and> deliverable s c \<longrightarrow>
        (\<exists>s'. publish clock topic p s = Inr (3, s')
           \<and> map_option lastActivity (map_of (connections s') a) = Some (clock 0)
           \<and> map_option lastActivity (map_of (connections s') b) = Some (clock 1)
           \<and> map_option lastActivity (map_of (connections s') c) = Some (clock 2)))"
proof (intro conjI impI)
  from publish_result[of clock topic p s]
  show "\<exists>s'. publish clock topic p s = Inr (length (filter (deliverable s) (topic_ids s topic)), s')
        \<and> messagesSent (stats s')
            = messagesSent (stats s) + int (length (filter (deliverable s) (topic_ids s topic)))"
    by auto
next
  assume h: "topic_ids s topic = [a, b, c] \<and> distinct [a, b, c]
        \<and> deliverable s a \<and> deliverable s b \<and> deliverable s c"
  from publish_result[of clock topic p s] obtain s' where
    r: "publish clock topic p s = Inr (length (filter (deliverable s) (topic_ids s topic)), s')"
    and c: "connections s' = connections (snd (deliver clock 0 topic p (topic_ids s topic)
                                             (log_to Debug ''Publishing to topic'' s)))"
    by blast
  from h have d: "distinct (topic_ids s topic)" by simp
  have m: "map_of (connections s') x
     = map_option (\<lambda>c. if x \<in> set (topic_ids s topic) \<and> isActive c
                        then c\<lparr>lastActivity := clock (index_of x (topic_ids s topic))\<rparr> else c)
         (map_of (connections s) x)" for x
    using deliver_connections0[OF d, of clock topic p "log_to Debug ''Publishing to topic'' s" x]
    by (simp add: c)
  from h have n: "length (filter (deliverable s) (topic_ids s topic)) = 3" by simp
  from h have i: "index_of a (topic_ids s topic) = 0" "index_of b (topic_ids s topic) = 1"
    "index_of c (topic_ids s topic) = 2"
    by auto
  from h obtain ra rb rc where rec: "map_of (connections s) a = Some ra" "isActive ra"
    "map_of (connections s) b = Some rb" "isActive rb"
    "map_of (connections s) c = Some rc" "isActive rc"
    by (auto simp: deliverable_def split: option.splits)
  from h have mem: "a \<in> set (topic_ids s topic)" "b \<in> set (topic_ids s topic)"
    "c \<in> set (topic_ids s topic)"
    by simp_all
  have "map_option lastActivity (map_of (connections s') a) = Some (clock 0)"
    "map_option lastActivity (map_of (connections s') b) = Some (clock 1)"
    "map_option lastActivity (map_of (connections s') c) = Some (clock 2)"
    by (simp_all add: m i rec mem)
  with r n show "\<exists>s'. publish clock topic p s = Inr (3, s')
           \<and> map_option lastActivity (map_of (connections s') a) = Some (clock 0)
           \<and> map_option lastActivity (map_of (connections s') b) = Some (clock 1)
           \<and> map_option lastActivity (map_of (connections s') c) = Some (clock 2)"
    by auto
qed

text \<open>Claim C3 amended, on three connections that hold one subscription each.\<close>

theorem publish_counts_connections_witness:
  "topic_ids three_connections ''orders'' = [''c1'', ''c2'', ''c3''] \<and> distinct [''c1'', ''c2'', ''c3'']
   \<and> deliverable three_connections ''c1'' \<and> deliverable three_connections ''c2''
   \<and> deliverable three_connections ''c3''
   \<and> (\<exists>s'. publish tick_clock ''orders'' () three_connections = Inr (3, s')
           \<and> map_option lastActivity (map_of (connections s') ''c1'') = Some 100
           \<and> map_option lastActivity (map_of (connections s') ''c2'') = Some 101
           \<and> map_option lastActivity (map_of (connections s') ''c3'') = Some 102)"
proof -
  have h: "topic_ids three_connections ''orders'' = [''c1'', ''c2'', ''c3''] \<and> distinct [''c1'', ''c2'', ''c3'']
   \<and> deliverable three_connections ''c1'' \<and> deliverable three_connections ''c2''
   \<and> deliverable three_connections ''c3''"
    by (simp add: topic_ids_def three_connections_fields three_connections_deliverable)
  from h publish_counts_connections[of tick_clock "''orders''" "()" three_connections
      "''c1''" "''c2''" "''c3''"]
  show ?thesis by (simp add: tick_clock_def)
qed

text \<open>
  Claim C3 as stated fails: three live subscriptions on \<open>orders\<close>, none with a filter, all
  owned by the one active connection \<open>c1\<close>; \<^verbatim>\<open>publish\<close> returns 1. And after three
  \<^verbatim>\<open>subscribe\<close> calls alone the set of the topic is empty and \<^verbatim>\<open>publish\<close> returns 0.
\<close>

theorem publish_one_connection_three_subscriptions:
  "live_subscriptions one_connection_three_subscriptions = {''a0'', ''b0'', ''c0''}
   \<and> map_option res_filter (map_of (subscriptions one_connection_three_subscriptions) ''a0'') = Some None
   \<and> map_option res_filter (map_of (subscriptions one_connection_three_subscriptions) ''b0'') = Some None
   \<and> map_option res_filter (map_of (subscriptions one_connection_three_subscriptions) ''c0'') = Some None
   \<and> map_option conn_subscriptions (getConnection ''c1'' one_connection_three_subscriptions)
       = Some [''a0'', ''b0'', ''c0'']
   \<and> map_option isActive (getConnection ''c1'' one_connection_three_subscriptions) = Some True
   \<and> delivered_count (publish tick_clock ''orders'' () one_connection_three_subscriptions) = Some 1
   \<and> live_subscriptions three_subscriptions_unlinked = {''a0'', ''b0'', ''c0''}
   \<and> delivered_count (publish tick_clock ''orders'' () three_subscriptions_unlinked) = Some 0"
proof -
  have u: "subscriptionConnections three_subscriptions_unlinked = [(''orders'', [])]"
    "map fst (subscriptions three_subscriptions_unlinked) = [''a0'', ''b0'', ''c0'']"
    by (simp_all add: three_subscriptions_unlinked_def subscribe_def init_def Let_def generateId_def
        toString36_0 map_has_def)
  have z: "delivered_count (publish tick_clock ''orders'' () three_subscriptions_unlinked) = Some 0"
    by (simp add: publish_def Let_def u delivered_count_def)
  have lu: "live_subscriptions three_subscriptions_unlinked = {''a0'', ''b0'', ''c0''}"
    using u(2) by (simp add: live_subscriptions_def image_set[symmetric] del: image_set) auto
  have n: "length (filter (deliverable one_connection_three_subscriptions)
             (topic_ids one_connection_three_subscriptions ''orders'')) = 1"
    by (simp add: topic_ids_def deliverable_def one_connection_three_subscriptions_fields
        example_connection_def)
  from publish_result[of tick_clock "''orders''" "()" one_connection_three_subscriptions] n
  have "delivered_count (publish tick_clock ''orders'' () one_connection_three_subscriptions) = Some 1"
    by (auto simp: delivered_count_def)
  with z lu show ?thesis
    by (simp add: live_subscriptions_def getConnection_def one_connection_three_subscriptions_fields
        example_connection_def plain_resolver_def)
qed

section \<open>Publishing with a filter\<close>

text \<open>
  Claim C4, as the code has it, for a filter that throws neither \<^verbatim>\<open>null\<close> nor
  \<^verbatim>\<open>undefined\<close> on a candidate (what the call does when it throws one of them is left
  out here). \<^verbatim>\<open>publishToSubscribers\<close> returns a count: the number of ids of the topic's set
  that are registered, on whose record the filter returns true, and that are active. Exactly
  these candidates are delivered to (their \<open>lastActivity\<close> becomes the time of the
  delivery); a candidate on which the filter returns false or throws is not delivered to, and
  its record, like every other record, the subscription table and the topic index, is as
  before. Each filter exception adds one warning to the log and nothing to the statistics:
  the statistics after the call are those before it with \<open>messagesSent\<close> increased by the
  count, so \<open>errorRate\<close> is unchanged.
\<close>

theorem publishToSubscribers_isolates_filter:
  assumes "distinct (topic_ids s topic)"
    and "\<forall>x \<in> set (topic_ids s topic). \<not> throws_nullish flt p s x"
  shows "fst (publishToSubscribers clock topic p flt s)
          = Inr (length (filter (\<lambda>x. passes flt p s x \<and> deliverable s x) (topic_ids s topic)))
      \<and> (\<forall>x. map_of (connections (snd (publishToSubscribers clock topic p flt s))) x
             = map_option (\<lambda>c. if x \<in> set (topic_ids s topic) \<and> flt p [] c = Inr True \<and> isActive c
                                then c\<lparr>lastActivity := clock (index_of x (topic_ids s topic))\<rparr> else c)
                 (map_of (connections s) x))
      \<and> subscriptions (snd (publishToSubscribers clock topic p flt s)) = subscriptions s
      \<and> subscriptionConnections (snd (publishToSubscribers clock topic p flt s)) = subscriptionConnections s
      \<and> stats (snd (publishToSubscribers clock topic p flt s))
          = (stats s)\<lparr>messagesSent := messagesSent (stats s)
               + int (length (filter (\<lambda>x. passes flt p s x \<and> deliverable s x) (topic_ids s topic)))\<rparr>
      \<and> filter_warnings (snd (publishToSubscribers clock topic p flt s))
          = filter_warnings s + length (filter (filter_throws flt p s) (topic_ids s topic))"
proof -
  from assms(2) have r: "reached flt p s (topic_ids s topic) = topic_ids s topic"
    by (simp add: reached_all)
  note res = publishToSubscribers_result[OF assms(1), of clock p flt]
  from res(1) res(3) res(4) res(5) res(6) publishToSubscribers_connections[OF assms(1), of clock p flt]
  show ?thesis by (simp add: r)
qed

text \<open>
  Claim C4 amended, on three connections with a filter that throws an \<^verbatim>\<open>Error\<close> on the
  first, rejects the second and accepts the third.
\<close>

theorem publishToSubscribers_isolates_filter_witness:
  "distinct (topic_ids three_connections ''orders'')
   \<and> topic_ids three_connections ''orders'' = [''c1'', ''c2'', ''c3'']
   \<and> \<not> throws_nullish selective_filter () three_connections ''c1''
   \<and> \<not> throws_nullish selective_filter () three_connections ''c2''
   \<and> \<not> throws_nullish selective_filter () three_connections ''c3''
   \<and> fst (publishToSubscribers tick_clock ''orders'' () selective_filter three_connections) = Inr 1
   \<and> map_option lastActivity
        (map_of (connections (snd (publishToSubscribers tick_clock ''orders'' () selective_filter
                                     three_connections))) ''c1'') = Some 0
   \<and> map_option lastActivity
        (map_of (connections (snd (publishToSubscribers tick_clock ''orders'' () selective_filter
                                     three_connections))) ''c2'') = Some 0
   \<and> map_option lastActivity
        (map_of (connections (snd (publishToSubscribers tick_clock ''orders'' () selective_filter
                                     three_connections))) ''c3'') = Some 102
   \<and> messagesSent (stats (snd (publishToSubscribers tick_clock ''orders'' () selective_filter
                                 three_connections)))
       = messagesSent (stats three_connections) + 1
   \<and> errorRate (stats (snd (publishToSubscribers tick_clock ''orders'' () selective_filter
                               three_connections)))
       = errorRate (stats three_connections)
   \<and> filter_warnings (snd (publishToSubscribers tick_clock ''orders'' () selective_filter
                             three_connections))
       = filter_warnings three_connections + 1"
proof -
  have t: "topic_ids three_connections ''orders'' = [''c1'', ''c2'', ''c3'']"
    by (simp add: topic_ids_def three_connections_fields)
  then have d: "distinct (topic_ids three_connections ''orders'')" by simp
  have nn: "\<forall>x \<in> set (topic_ids three_connections ''orders'').
          \<not> throws_nullish selective_filter () three_connections x"
    by (simp add: t throws_nullish_def three_connections_fields example_connection_def
        selective_filter_def)
  have n: "filter (\<lambda>x. passes selective_filter () three_connections x \<and> deliverable three_connections x)
             (topic_ids three_connections ''orders'') = [''c3'']"
    by (simp add: t passes_def three_connections_deliverable three_connections_fields
        example_connection_def selective_filter_def)
  have w: "filter (filter_throws selective_filter () three_connections)
             (topic_ids three_connections ''orders'') = [''c1'']"
    by (simp add: t filter_throws_def three_connections_fields example_connection_def
        selective_filter_def)
  from publishToSubscribers_isolates_filter[OF d nn, of tick_clock]
  have "fst (publishToSubscribers tick_clock ''orders'' () selective_filter three_connections) = Inr 1"
    and m: "\<And>x. map_of (connections (snd (publishToSubscribers tick_clock ''orders'' () selective_filter
                                     three_connections))) x
             = map_option (\<lambda>c. if x \<in> set (topic_ids three_connections ''orders'')
                                   \<and> selective_filter () [] c = Inr True \<and> isActive c
                                then c\<lparr>lastActivity := tick_clock (index_of x (topic_ids three_connections ''orders''))\<rparr>
                                else c)
                 (map_of (connections three_connections) x)"
    and "stats (snd (publishToSubscribers tick_clock ''orders'' () selective_filter three_connections))
          = (stats three_connections)\<lparr>messagesSent := messagesSent (stats three_connections) + 1\<rparr>"
    and "filter_warnings (snd (publishToSubscribers tick_clock ''orders'' () selective_filter
                             three_connections))
       = filter_warnings three_connections + 1"
    unfolding n w by simp_all
  moreover have "map_option lastActivity
        (map_of (connections (snd (publishToSubscribers tick_clock ''orders'' () selective_filter
                                     three_connections))) ''c1'') = Some 0"
    "map_option lastActivity
        (map_of (connections (snd (publishToSubscribers tick_clock ''orders'' () selective_filter
                                     three_connections))) ''c2'') = Some 0"
    "map_option lastActivity
        (map_of (connections (snd (publishToSubscribers tick_clock ''orders'' () selective_filter
                                     three_connections))) ''c3'') = Some 102"
    by (simp_all add: m t three_connections_fields example_connection_def selective_filter_def
        tick_clock_def)
  ultimately show ?thesis using d nn t by simp
qed

text \<open>
  Claim C4 as stated fails: with a filter that throws an \<^verbatim>\<open>Error\<close> on the only candidate,
  the call returns 0, logs one warning and leaves every field of the statistics as it was;
  the exception is counted nowhere.
\<close>

theorem publishToSubscribers_filter_error_not_counted:
  "fst (publishToSubscribers tick_clock ''orders'' () throwing_filter linked_subscription) = Inr 0
   \<and> stats (snd (publishToSubscribers tick_clock ''orders'' () throwing_filter linked_subscription))
       = stats linked_subscription
   \<and> filter_warnings (snd (publishToSubscribers tick_clock ''orders'' () throwing_filter
                             linked_subscription)) = 1"
proof -
  have d: "distinct (topic_ids linked_subscription ''orders'')" by (simp add: linked_subscription_topic)
  have r: "reached throwing_filter () linked_subscription (topic_ids linked_subscription ''orders'')
             = topic_ids linked_subscription ''orders''"
    by (simp add: reached_all linked_subscription_topic throws_nullish_def linked_subscription_fields
        throwing_filter_def)
  have n: "filter (\<lambda>x. passes throwing_filter () linked_subscription x \<and> deliverable linked_subscription x)
             (topic_ids linked_subscription ''orders'') = []"
    by (simp add: linked_subscription_topic passes_def linked_subscription_fields throwing_filter_def)
  have w: "filter (filter_throws throwing_filter () linked_subscription)
             (topic_ids linked_subscription ''orders'') = [''c1'']"
    by (simp add: linked_subscription_topic filter_throws_def linked_subscription_fields throwing_filter_def)
  have f: "filter_warnings linked_subscription = 0"
    by (simp add: filter_warnings_def linked_subscription_def addSubscriptionToConnection_def subscribe_def
      registerConnection_def init_def Let_def generateId_def toString36_0 example_connection_def
      map_has_def set_add_def)
  note res = publishToSubscribers_result[OF d, of tick_clock "()" throwing_filter]
  from res(1) res(5) res(6) show ?thesis by (simp add: r n w f)
qed

section \<open>What the fan-out does to connection records\<close>

text \<open>
  Claim C10: after \<^verbatim>\<open>publish\<close> and after \<^verbatim>\<open>publishToSubscribers\<close>, looking up any
  connection id gives the record it gave before, except that a record to which delivery
  succeeded has \<open>lastActivity\<close> set to the time of its delivery. Delivery succeeds for the
  ids of the topic's set that are registered and active and, with a filter, that the loop
  visits and on which the filter returned true. So no record is added or removed and no other
  field changes. A returned count is the number of successful deliveries; a delivery to an id
  that is unknown or inactive fails and is not in that count. \<^verbatim>\<open>publishToSubscribers\<close>
  returns a count when its loop visits the whole set and rejects with the \<^verbatim>\<open>TypeError\<close>
  when the filter throws \<^verbatim>\<open>null\<close> or \<^verbatim>\<open>undefined\<close> on a candidate; the records are then
  those left by the deliveries made before that candidate.
\<close>

theorem fanout_updates_lastActivity_only:
  assumes "distinct (topic_ids s topic)"
  shows "(\<exists>s'. publish clock topic p s = Inr (length (filter (deliverable s) (topic_ids s topic)), s')
           \<and> (\<forall>x. map_of (connections s') x
                 = map_option (\<lambda>c. if x \<in> set (topic_ids s topic) \<and> isActive c
                                    then c\<lparr>lastActivity := clock (index_of x (topic_ids s topic))\<rparr> else c)
                     (map_of (connections s) x)))
       \<and> fst (publishToSubscribers clock topic p flt s)
           = (if reached flt p s (topic_ids s topic) = topic_ids s topic
              then Inr (length (filter (\<lambda>x. passes flt p s x \<and> deliverable s x) (topic_ids s topic)))
              else Inl JsTypeError)
       \<and> (\<forall>x. map_of (connections (snd (publishToSubscribers clock topic p flt s))) x
                 = map_option (\<lambda>c. if x \<in> set (reached flt p s (topic_ids s topic))
                                       \<and> flt p [] c = Inr True \<and> isActive c
                                    then c\<lparr>lastActivity := clock (index_of x (topic_ids s topic))\<rparr> else c)
                     (map_of (connections s) x))
       \<and> (\<forall>cid now. \<not> deliverable s cid \<longrightarrow> isl (publishToConnection now cid topic p s))"
proof (intro conjI allI impI)
  from publish_result[of clock topic p s] obtain s' where
    r: "publish clock topic p s = Inr (length (filter (deliverable s) (topic_ids s topic)), s')"
    and c: "connections s' = connections (snd (deliver clock 0 topic p (topic_ids s topic)
                                             (log_to Debug ''Publishing to topic'' s)))"
    by blast
  have "map_of (connections s') x
     = map_option (\<lambda>c. if x \<in> set (topic_ids s topic) \<and> isActive c
                        then c\<lparr>lastActivity := clock (index_of x (topic_ids s topic))\<rparr> else c)
         (map_of (connections s) x)" for x
    using deliver_connections0[OF assms, of clock topic p "log_to Debug ''Publishing to topic'' s" x]
    by (simp add: c)
  with r show "\<exists>s'. publish clock topic p s = Inr (length (filter (deliverable s) (topic_ids s topic)), s')
           \<and> (\<forall>x. map_of (connections s') x
                 = map_option (\<lambda>c. if x \<in> set (topic_ids s topic) \<and> isActive c
                                    then c\<lparr>lastActivity := clock (index_of x (topic_ids s topic))\<rparr> else c)
                     (map_of (connections s) x))"
    by blast
next
  show "fst (publishToSubscribers clock topic p flt s)
           = (if reached flt p s (topic_ids s topic) = topic_ids s topic
              then Inr (length (filter (\<lambda>x. passes flt p s x \<and> deliverable s x) (topic_ids s topic)))
              else Inl JsTypeError)"
    by (rule publishToSubscribers_result(1)[OF assms])
next
  fix x
  show "map_of (connections (snd (publishToSubscribers clock topic p flt s))) x
                 = map_option (\<lambda>c. if x \<in> set (reached flt p s (topic_ids s topic))
                                       \<and> flt p [] c = Inr True \<and> isActive c
                                    then c\<lparr>lastActivity := clock (index_of x (topic_ids s topic))\<rparr> else c)
                     (map_of (connections s) x)"
    by (rule publishToSubscribers_connections[OF assms])
next
  fix cid now
  assume "\<not> deliverable s cid"
  then show "isl (publishToConnection now cid topic p s)"
    by (simp add: publishToConnection_fails)
qed

text \<open>
  Claim C10 on the state in which \<open>c2\<close> was closed: its id is still in the topic's set,
  delivery to it fails, and the two other connections are delivered to; with the filter that
  throws an \<^verbatim>\<open>Error\<close> on \<open>c1\<close>, only \<open>c3\<close> is. And on the state with three connections,
  with the filter that throws \<^verbatim>\<open>null\<close> on \<open>c2\<close>: \<open>c1\<close> is delivered to, the call rejects,
  and the records of \<open>c2\<close> and \<open>c3\<close> are as before.
\<close>

theorem fanout_updates_lastActivity_only_witness:
  "distinct (topic_ids after_close ''orders'')
   \<and> distinct (topic_ids three_connections ''orders'')
   \<and> \<not> deliverable after_close ''c2''
   \<and> isl (publishToConnection 7 ''c2'' ''orders'' () after_close)
   \<and> (\<exists>s'. publish tick_clock ''orders'' () after_close = Inr (2, s')
         \<and> map_of (connections s') ''c1''
             = Some ((example_connection ''c1'')\<lparr>conn_subscriptions := [''a0''], lastActivity := 100\<rparr>)
         \<and> map_of (connections s') ''c2'' = None
         \<and> map_of (connections s') ''c3''
             = Some ((example_connection ''c3'')\<lparr>conn_subscriptions := [''c0''], lastActivity := 102\<rparr>))
   \<and> fst (publishToSubscribers tick_clock ''orders'' () selective_filter after_close) = Inr 1
   \<and> map_of (connections (snd (publishToSubscribers tick_clock ''orders'' () selective_filter after_close))) ''c1''
       = Some ((example_connection ''c1'')\<lparr>conn_subscriptions := [''a0'']\<rparr>)
   \<and> map_of (connections (snd (publishToSubscribers tick_clock ''orders'' () selective_filter after_close))) ''c2''
       = None
   \<and> map_of (connections (snd (publishToSubscribers tick_clock ''orders'' () selective_filter after_close))) ''c3''
       = Some ((example_connection ''c3'')\<lparr>conn_subscriptions := [''c0''], lastActivity := 102\<rparr>)
   \<and> fst (publishToSubscribers tick_clock ''orders'' () nullish_filter three_connections) = Inl JsTypeError
   \<and> map_of (connections (snd (publishToSubscribers tick_clock ''orders'' () nullish_filter three_connections))) ''c1''
       = Some ((example_connection ''c1'')\<lparr>conn_subscriptions := [''a0''], lastActivity := 100\<rparr>)
   \<and> map_of (connections (snd (publishToSubscribers tick_clock ''orders'' () nullish_filter three_connections))) ''c2''
       = Some ((example_connection ''c2'')\<lparr>conn_subscriptions := [''b0'']\<rparr>)
   \<and> map_of (connections (snd (publishToSubscribers tick_clock ''orders'' () nullish_filter three_connections))) ''c3''
       = Some ((example_connection ''c3'')\<lparr>conn_subscriptions := [''c0'']\<rparr>)"
proof -
  have d: "distinct (topic_ids after_close ''orders'')" by (simp add: after_close_fields)
  have t3: "topic_ids three_connections ''orders'' = [''c1'', ''c2'', ''c3'']"
    by (simp add: topic_ids_def three_connections_fields)
  then have d3: "distinct (topic_ids three_connections ''orders'')" by simp
  have nd: "\<not> deliverable after_close ''c2''" by (simp add: deliverable_def after_close_fields)
  have n: "length (filter (deliverable after_close) (topic_ids after_close ''orders'')) = 2"
    by (simp add: deliverable_def after_close_fields example_connection_def)
  have ra: "reached selective_filter () after_close (topic_ids after_close ''orders'')
              = [''c1'', ''c2'', ''c3'']"
    by (simp add: reached_def throws_nullish_def after_close_fields example_connection_def
        selective_filter_def)
  have nf: "length (filter (\<lambda>x. passes selective_filter () after_close x \<and> deliverable after_close x)
              (topic_ids after_close ''orders'')) = 1"
    by (simp add: passes_def deliverable_def after_close_fields example_connection_def
        selective_filter_def)
  have r3: "reached nullish_filter () three_connections (topic_ids three_connections ''orders'')
              = [''c1'']"
    by (simp add: t3 reached_def throws_nullish_def three_connections_fields example_connection_def
        nullish_filter_def)
  from fanout_updates_lastActivity_only[OF d, of tick_clock "()" selective_filter]
  obtain s' where r: "publish tick_clock ''orders'' () after_close = Inr (2, s')"
    and m: "\<And>x. map_of (connections s') x
                 = map_option (\<lambda>c. if x \<in> set (topic_ids after_close ''orders'') \<and> isActive c
                                    then c\<lparr>lastActivity := tick_clock (index_of x (topic_ids after_close ''orders''))\<rparr>
                                    else c)
                     (map_of (connections after_close) x)"
    and rf: "fst (publishToSubscribers tick_clock ''orders'' () selective_filter after_close) = Inr 1"
    and mf: "\<And>x. map_of (connections (snd (publishToSubscribers tick_clock ''orders'' () selective_filter after_close))) x
                 = map_option (\<lambda>c. if x \<in> set [''c1'', ''c2'', ''c3'']
                                       \<and> selective_filter () [] c = Inr True \<and> isActive c
                                    then c\<lparr>lastActivity := tick_clock (index_of x (topic_ids after_close ''orders''))\<rparr>
                                    else c)
                     (map_of (connections after_close) x)"
    and f: "\<And>cid now. \<not> deliverable after_close cid \<Longrightarrow> isl (publishToConnection now cid ''orders'' () after_close)"
    unfolding n nf ra by (auto simp: after_close_fields)
  from fanout_updates_lastActivity_only[OF d3, of tick_clock "()" nullish_filter]
  have rn: "fst (publishToSubscribers tick_clock ''orders'' () nullish_filter three_connections) = Inl JsTypeError"
    and mn: "\<And>x. map_of (connections (snd (publishToSubscribers tick_clock ''orders'' () nullish_filter three_connections))) x
                 = map_option (\<lambda>c. if x \<in> set [''c1'']
                                       \<and> nullish_filter () [] c = Inr True \<and> isActive c
                                    then c\<lparr>lastActivity := tick_clock (index_of x (topic_ids three_connections ''orders''))\<rparr>
                                    else c)
                     (map_of (connections three_connections) x)"
    unfolding r3 by (simp_all add: t3)
  have a: "map_of (connections s') ''c1''
             = Some ((example_connection ''c1'')\<lparr>conn_subscriptions := [''a0''], lastActivity := 100\<rparr>)"
    "map_of (connections s') ''c2'' = None"
    "map_of (connections s') ''c3''
             = Some ((example_connection ''c3'')\<lparr>conn_subscriptions := [''c0''], lastActivity := 102\<rparr>)"
    by (simp_all add: m after_close_fields example_connection_def tick_clock_def)
  have b: "map_of (connections (snd (publishToSubscribers tick_clock ''orders'' () selective_filter after_close))) ''c1''
             = Some ((example_connection ''c1'')\<lparr>conn_subscriptions := [''a0'']\<rparr>)"
    "map_of (connections (snd (publishToSubscribers tick_clock ''orders'' () selective_filter after_close))) ''c2'' = None"
    "map_of (connections (snd (publishToSubscribers tick_clock ''orders'' () selective_filter after_close))) ''c3''
             = Some ((example_connection ''c3'')\<lparr>conn_subscriptions := [''c0''], lastActivity := 102\<rparr>)"
    by (simp_all add: mf after_close_fields example_connection_def tick_clock_def selective_filter_def)
  have c: "map_of (connections (snd (publishToSubscribers tick_clock ''orders'' () nullish_filter three_connections))) ''c1''
       = Some ((example_connection ''c1'')\<lparr>conn_subscriptions := [''a0''], lastActivity := 100\<rparr>)"
    "map_of (connections (snd (publishToSubscribers tick_clock ''orders'' () nullish_filter three_connections))) ''c2''
       = Some ((example_connection ''c2'')\<lparr>conn_subscriptions := [''b0'']\<rparr>)"
    "map_of (connections (snd (publishToSubscribers tick_clock ''orders'' () nullish_filter three_connections))) ''c3''
       = Some ((example_connection ''c3'')\<lparr>conn_subscriptions := [''c0'']\<rparr>)"
    by (simp_all add: mn t3 three_connections_fields example_connection_def tick_clock_def
        nullish_filter_def)
  from d d3 nd r rf rn a b c f[OF nd, of 7] show ?thesis by blast
qed

section \<open>Sets stay free of duplicates\<close>

text \<open>
  The theorems on the fan-out assume that the topic's set has no duplicates, as every
  \<^verbatim>\<open>Set\<close> has. The initial state has this property and every operation keeps it.
\<close>

lemma topic_ids_init: "topic_ids (init t0) t = []"
  by (simp add: topic_ids_def init_def)

lemma registerConnection_topic_ids: "topic_ids (registerConnection c s) t = topic_ids s t"
  by (simp add: registerConnection_def Let_def topic_ids_def)

lemma addSubscriptionToConnection_topic_ids:
  "topic_ids (addSubscriptionToConnection cid sid topic s) t
     = (if map_has (connections s) cid \<and> t = topic then set_add cid (topic_ids s t) else topic_ids s t)"
  by (auto simp: addSubscriptionToConnection_def Let_def topic_ids_def map_has_def update_conv'
      split: option.splits)

lemma distinct_set_add: "distinct xs \<Longrightarrow> distinct (set_add x xs)"
  by (simp add: set_add_def)

lemma publish_topics:
  "publish clock topic p s = Inr (n, s') \<Longrightarrow> subscriptionConnections s' = subscriptionConnections s"
  using publish_result[of clock topic p s] by auto

lemma publishToSubscribers_topics:
  "subscriptionConnections (snd (publishToSubscribers clock topic p flt s)) = subscriptionConnections s"
  using deliverFiltered_frame[of clock 0 topic p flt _ "log_to Debug ''Publishing to filtered subscribers'' s"]
  by (auto simp: publishToSubscribers_def Let_def split_beta split: option.splits if_splits)

lemma topic_sets_stay_distinct:
  assumes "distinct (topic_ids s t)"
  shows "distinct (topic_ids (snd (subscribe rnd now name r s)) t)"
    and "distinct (topic_ids (snd (unsubscribe sid s)) t)"
    and "distinct (topic_ids (registerConnection c s) t)"
    and "distinct (topic_ids (addSubscriptionToConnection cid sid topic s) t)"
    and "distinct (topic_ids (snd (closeConnection cid s)) t)"
    and "publish clock topic p s = Inr (n, s') \<Longrightarrow> distinct (topic_ids s' t)"
    and "distinct (topic_ids (snd (publishToSubscribers clock topic p flt s)) t)"
proof -
  from assms show "distinct (topic_ids (snd (subscribe rnd now name r s)) t)"
    by (simp add: subscribe_topic_ids)
  from assms show "distinct (topic_ids (snd (unsubscribe sid s)) t)"
    by (simp add: unsubscribe_topic_ids distinct_removeAll)
  from assms show "distinct (topic_ids (registerConnection c s) t)"
    by (simp add: registerConnection_topic_ids)
  from assms show "distinct (topic_ids (addSubscriptionToConnection cid sid topic s) t)"
    by (auto simp: addSubscriptionToConnection_topic_ids distinct_set_add)
  from assms show "distinct (topic_ids (snd (closeConnection cid s)) t)"
    by (cases "map_of (connections s) cid")
       (simp_all add: closeConnection_unknown closeConnection_known(5))
  from assms show "publish clock topic p s = Inr (n, s') \<Longrightarrow> distinct (topic_ids s' t)"
    by (simp add: topic_ids_eq[OF publish_topics])
  from assms show "distinct (topic_ids (snd (publishToSubscribers clock topic p flt s)) t)"
    by (simp add: topic_ids_eq[OF publishToSubscribers_topics])
qed

end
